theory Spec2Isabelle
  imports Main "HOL-Library.Char_ord" "HOL-Library.List_Lexorder" "HOL-Library.Multiset"
begin

section \<open>Effects: the observable trace of a call\<close>

text \<open>
  Everything the toolkit does besides returning a value is recorded in a trace:
  the log lines of \<^verbatim>\<open>retryWithBackoff\<close>, the pauses of \<^verbatim>\<open>sleep\<close>,
  the calls of a publisher's \<^verbatim>\<open>publish\<close> and the network calls of the platform
  clients. A JavaScript \<^verbatim>\<open>Error\<close> is represented by its message; numbers
  (attempt counters, milliseconds, the multiplier) are integers.
\<close>

datatype TargetPlatform = X | Discord

datatype event =
    LogAttempt int string
  | LogRetrying int string string int
  | LogAllFailed int string string
  | Sleep int
  | OperationInvoked
  | PublisherInvoked TargetPlatform bool
  | NetworkCall TargetPlatform
  | ClockRead

record effects =
  trace :: "event list"

definition emit :: "event \<Rightarrow> 'z effects_scheme \<Rightarrow> 'z effects_scheme" where
  "emit e w = w\<lparr>trace := trace w @ [e]\<rparr>"

fun sleeps :: "event list \<Rightarrow> int list" where
  "sleeps [] = []"
| "sleeps (Sleep ms # es) = ms # sleeps es"
| "sleeps (e # es) = sleeps es"

section \<open>utils/retry.ts\<close>

record RetryConfig =
  maxAttempts :: int
  initialDelayMs :: int
  maxDelayMs :: int
  backoffMultiplier :: int

text \<open>
  The \<^verbatim>\<open>for\<close> loop of \<^verbatim>\<open>retryWithBackoff\<close>, with its loop variables
  \<^verbatim>\<open>attempt\<close>, \<^verbatim>\<open>delay\<close> and \<^verbatim>\<open>lastError\<close> as arguments. The operation
  \<open>fn\<close> reads and changes the world; \<open>Inl\<close> is a rejected promise.
\<close>

function retry_loop ::
  "('z effects_scheme \<Rightarrow> (string + 'a) \<times> 'z effects_scheme) \<Rightarrow> RetryConfig \<Rightarrow> string \<Rightarrow>
     int \<Rightarrow> int \<Rightarrow> string option \<Rightarrow> 'z effects_scheme \<Rightarrow> (string + 'a) \<times> 'z effects_scheme"
where
  "retry_loop fn config ctx attempt delay lastError w =
     (if attempt \<le> maxAttempts config then
        (case fn (emit (LogAttempt attempt ctx) w) of
           (Inr v, w1) \<Rightarrow> (Inr v, w1)
         | (Inl e, w1) \<Rightarrow>
             if attempt = maxAttempts config
             then (Inl e, emit (LogAllFailed attempt ctx e) w1)
             else retry_loop fn config ctx (attempt + 1)
                    (min (delay * backoffMultiplier config) (maxDelayMs config)) (Some e)
                    (emit (Sleep delay) (emit (LogRetrying attempt ctx e delay) w1)))
      else (Inl (case lastError of Some e \<Rightarrow> e
                 | None \<Rightarrow> ''Retry failed with unknown error''), w))"
  by pat_completeness auto
termination
  by (relation "measure (\<lambda>(fn, config, ctx, attempt, delay, lastError, w).
        nat (maxAttempts config + 1 - attempt))") auto

definition retryWithBackoff ::
  "('z effects_scheme \<Rightarrow> (string + 'a) \<times> 'z effects_scheme) \<Rightarrow> RetryConfig \<Rightarrow> string \<Rightarrow>
     'z effects_scheme \<Rightarrow> (string + 'a) \<times> 'z effects_scheme"
where
  "retryWithBackoff fn config ctx w = retry_loop fn config ctx 1 (initialDelayMs config) None w"

text \<open>The retry section of the configuration object.\<close>

definition config_retry :: RetryConfig where
  "config_retry = \<lparr>maxAttempts = 3, initialDelayMs = 1000, maxDelayMs = 10000,
     backoffMultiplier = 2\<rparr>"

text \<open>
  An operation that fails on every call: the \<open>k\<close>-th call (counted from 0 by the
  calls already in the trace) is rejected with the message \<open>errs k\<close>, and the call is
  recorded.
\<close>

definition failingOperation ::
  "(nat \<Rightarrow> string) \<Rightarrow> 'z effects_scheme \<Rightarrow> (string + unit) \<times> 'z effects_scheme" where
  "failingOperation errs w =
     (Inl (errs (count_list (trace w) OperationInvoked)), emit OperationInvoked w)"

section \<open>utils/hash.ts\<close>

text \<open>
  A JavaScript string is a list of characters, compared code unit by code unit; the
  default \<^verbatim>\<open>Array.prototype.sort\<close> on an array of strings is \<open>sort\<close> in that
  order. An optional field is an \<open>option\<close>; \<open>None\<close> is \<^verbatim>\<open>undefined\<close>. The values
  of \<^verbatim>\<open>metadata\<close> are JSON values (numbers restricted to integers).
\<close>

datatype BrandVoice = Bold | Professional | Casual | Funny

datatype json = JNull | JBool bool | JNum int | JStr string | JArr "json list"
  | JObj "(string \<times> json) list"

record NormalizedContent =
  topic :: "string option"
  primaryKeyword :: string
  secondaryKeywords :: "string list option"
  body :: string
  cta :: "string option"
  canonicalUrl :: string
  mediaUrls :: "string list option"
  tags :: "string list option"
  links :: "string list option"
  brandVoice :: "BrandVoice option"
  metadata :: "(string \<times> json) list option"

fun BrandVoice_string :: "BrandVoice \<Rightarrow> string" where
  "BrandVoice_string Bold = ''bold''"
| "BrandVoice_string Professional = ''professional''"
| "BrandVoice_string Casual = ''casual''"
| "BrandVoice_string Funny = ''funny''"

subsection \<open>\<^verbatim>\<open>JSON.stringify(value, propertyList)\<close>\<close>

definition hexDigit :: "nat \<Rightarrow> char" where
  "hexDigit n = ''0123456789abcdef'' ! (n mod 16)"

fun showNat :: "nat \<Rightarrow> string" where
  "showNat n = (if n < 10 then [hexDigit n] else showNat (n div 10) @ [hexDigit (n mod 10)])"

declare showNat.simps [simp del]

definition showInt :: "int \<Rightarrow> string" where
  "showInt i = (if i < 0 then CHR ''-'' # showNat (nat (- i)) else showNat (nat i))"

definition quoteChar :: "char \<Rightarrow> string" where
  "quoteChar c =
     (if c = CHR 0x08 then [CHR 0x5C, CHR ''b'']
      else if c = CHR 0x09 then [CHR 0x5C, CHR ''t'']
      else if c = CHR 0x0A then [CHR 0x5C, CHR ''n'']
      else if c = CHR 0x0C then [CHR 0x5C, CHR ''f'']
      else if c = CHR 0x0D then [CHR 0x5C, CHR ''r'']
      else if c = CHR 0x22 then [CHR 0x5C, CHR 0x22]
      else if c = CHR 0x5C then [CHR 0x5C, CHR 0x5C]
      else if of_char c < (32::nat)
        then [CHR 0x5C, CHR ''u'', CHR ''0'', CHR ''0'', hexDigit (of_char c div 16),
              hexDigit (of_char c)]
      else [c])"

definition QuoteJSONString :: "string \<Rightarrow> string" where
  "QuoteJSONString s = [CHR 0x22] @ concat (map quoteChar s) @ [CHR 0x22]"

fun join :: "string \<Rightarrow> string list \<Rightarrow> string" where
  "join sep [] = []"
| "join sep [s] = s"
| "join sep (s # t # ss) = s @ sep @ join sep (t # ss)"

text \<open>
  When the replacer is an array, it is a property list \<open>K\<close>: of every object, at every
  depth, only the properties named in \<open>K\<close> are written, in the order of \<open>K\<close>.
  Array elements are all written.
\<close>

fun SerializeJSONProperty :: "string list \<Rightarrow> json \<Rightarrow> string" where
  "SerializeJSONProperty K JNull = ''null''"
| "SerializeJSONProperty K (JBool b) = (if b then ''true'' else ''false'')"
| "SerializeJSONProperty K (JNum n) = showInt n"
| "SerializeJSONProperty K (JStr s) = QuoteJSONString s"
| "SerializeJSONProperty K (JArr vs) =
     ''['' @ join '','' (map (SerializeJSONProperty K) vs) @ '']''"
| "SerializeJSONProperty K (JObj ps) =
     (let members = map (\<lambda>(k, v). (k, SerializeJSONProperty K v)) ps in
      ''{'' @ join '',''
         (concat (map (\<lambda>P. case map_of members P of
                               None \<Rightarrow> []
                             | Some strP \<Rightarrow> [QuoteJSONString P @ '':'' @ strP]) K))
       @ ''}'')"

subsection \<open>\<^verbatim>\<open>generateContentHash\<close>\<close>

text \<open>The object literal \<^verbatim>\<open>stableContent\<close>, its properties in the order written.\<close>

definition stableContent :: "NormalizedContent \<Rightarrow> (string \<times> json) list" where
  "stableContent content =
     [(''body'', JStr (body content)),
      (''brandVoice'', JStr (case brandVoice content of
                               None \<Rightarrow> ''professional'' | Some v \<Rightarrow> BrandVoice_string v)),
      (''canonicalUrl'', JStr (canonicalUrl content)),
      (''cta'', JStr (case cta content of None \<Rightarrow> '''' | Some s \<Rightarrow> s)),
      (''links'', JArr (map JStr (case links content of None \<Rightarrow> [] | Some xs \<Rightarrow> sort xs))),
      (''mediaUrls'',
         JArr (map JStr (case mediaUrls content of None \<Rightarrow> [] | Some xs \<Rightarrow> sort xs))),
      (''metadata'', JObj (case metadata content of None \<Rightarrow> [] | Some m \<Rightarrow> m)),
      (''primaryKeyword'', JStr (primaryKeyword content)),
      (''secondaryKeywords'',
         JArr (map JStr (case secondaryKeywords content of None \<Rightarrow> [] | Some xs \<Rightarrow> sort xs))),
      (''tags'', JArr (map JStr (case tags content of None \<Rightarrow> [] | Some xs \<Rightarrow> sort xs))),
      (''topic'', JStr (case topic content of None \<Rightarrow> '''' | Some s \<Rightarrow> s))]"

text \<open>
  \<^verbatim>\<open>JSON.stringify(stableContent, Object.keys(stableContent).sort())\<close>.
\<close>

definition contentString :: "NormalizedContent \<Rightarrow> string" where
  "contentString content =
     SerializeJSONProperty (sort (map fst (stableContent content))) (JObj (stableContent content))"

text \<open>
  The digest \<^verbatim>\<open>crypto.createHash('sha256').update(s).digest('hex')\<close> is a
  parameter, \<open>sha256\<close>.
\<close>

definition generateContentHash :: "(string \<Rightarrow> string) \<Rightarrow> NormalizedContent \<Rightarrow> string" where
  "generateContentHash sha256 content = sha256 (contentString content)"

text \<open>
  \<^verbatim>\<open>sort()\<close> sorts in place: after \<^verbatim>\<open>generateContentHash(content)\<close> the four
  arrays of \<open>content\<close> are sorted.
\<close>

definition sortedInPlace :: "NormalizedContent \<Rightarrow> NormalizedContent" where
  "sortedInPlace content =
     content\<lparr>links := map_option sort (links content),
             mediaUrls := map_option sort (mediaUrls content),
             secondaryKeywords := map_option sort (secondaryKeywords content),
             tags := map_option sort (tags content)\<rparr>"

text \<open>
  Two payloads are semantically equal when their required fields agree, their optional
  scalar fields agree after defaulting, their order-independent arrays hold the same
  elements (as multisets, an omitted array being empty), and their metadata agree.
\<close>

definition semantically_equal :: "NormalizedContent \<Rightarrow> NormalizedContent \<Rightarrow> bool" where
  "semantically_equal a b =
     (body a = body b \<and> canonicalUrl a = canonicalUrl b \<and> primaryKeyword a = primaryKeyword b
      \<and> (case topic a of None \<Rightarrow> '''' | Some s \<Rightarrow> s) = (case topic b of None \<Rightarrow> '''' | Some s \<Rightarrow> s)
      \<and> (case cta a of None \<Rightarrow> '''' | Some s \<Rightarrow> s) = (case cta b of None \<Rightarrow> '''' | Some s \<Rightarrow> s)
      \<and> (case brandVoice a of None \<Rightarrow> Professional | Some v \<Rightarrow> v)
          = (case brandVoice b of None \<Rightarrow> Professional | Some v \<Rightarrow> v)
      \<and> mset (case tags a of None \<Rightarrow> [] | Some xs \<Rightarrow> xs)
          = mset (case tags b of None \<Rightarrow> [] | Some xs \<Rightarrow> xs)
      \<and> mset (case secondaryKeywords a of None \<Rightarrow> [] | Some xs \<Rightarrow> xs)
          = mset (case secondaryKeywords b of None \<Rightarrow> [] | Some xs \<Rightarrow> xs)
      \<and> mset (case links a of None \<Rightarrow> [] | Some xs \<Rightarrow> xs)
          = mset (case links b of None \<Rightarrow> [] | Some xs \<Rightarrow> xs)
      \<and> mset (case mediaUrls a of None \<Rightarrow> [] | Some xs \<Rightarrow> xs)
          = mset (case mediaUrls b of None \<Rightarrow> [] | Some xs \<Rightarrow> xs)
      \<and> (case metadata a of None \<Rightarrow> [] | Some m \<Rightarrow> m)
          = (case metadata b of None \<Rightarrow> [] | Some m \<Rightarrow> m))"

section \<open>types/index.ts\<close>

datatype TargetStatus = Success | Failed | Skipped

datatype OverallStatus = OverallSuccess | OverallPartial | OverallFailed | OverallDryRun

record TargetResult =
  target :: TargetPlatform
  status :: TargetStatus
  platform_id :: "string option"
  platform_url :: "string option"
  error_message :: "string option"
  posted_at :: "string option"

datatype XPostMode = Single | Thread

record XDraft =
  mode :: XPostMode
  posts :: "string list"
  hashtags :: "string list"

record DiscordEmbedField =
  field_name :: string
  field_text :: string
  inline :: "bool option"

record DiscordEmbed =
  title :: string
  description :: string
  url :: "string option"
  color :: "int option"
  embed_fields :: "DiscordEmbedField list option"
  image_url :: "string option"
  footer_text :: "string option"
  timestamp :: "string option"

record DiscordDraft =
  channel_id_suggestion :: "string option"
  embed :: DiscordEmbed

text \<open>The two properties \<^verbatim>\<open>x\<close> and \<^verbatim>\<open>discord\<close> of \<^verbatim>\<open>PlatformDrafts\<close>.\<close>

record PlatformDrafts =
  x_draft :: XDraft
  discord_draft :: DiscordDraft

text \<open>
  \<^verbatim>\<open>PublishOptions\<close>: before \<^verbatim>\<open>PublishOptionsSchema.parse\<close> a flag may be
  missing (\<open>None\<close>); after it every flag is set.
\<close>

record PublishOptions =
  discord_channel_id :: "string option"
  dry_run :: "bool option"
  useUtm :: "bool option"
  force_retry_failed_targets :: "bool option"

record PublishInput =
  request_id :: string
  content :: NormalizedContent
  targets :: "TargetPlatform list"
  options :: "PublishOptions option"

record PublishOutput =
  out_request_id :: string
  out_content_hash :: string
  overall_status :: OverallStatus
  per_target_results :: "TargetResult list"

record XPublishOutput =
  platform_ids :: "string list"
  platform_urls :: "string list"

text \<open>A row of \<^verbatim>\<open>post_requests\<close>, without its key and its two timestamps.\<close>

record PostRequestRow =
  content_json :: NormalizedContent
  content_hash :: string
  targets_json :: "TargetPlatform list"
  options_json :: "PublishOptions option"

text \<open>
  An error thrown by \<^verbatim>\<open>publishPost\<close>: a \<^verbatim>\<open>ZodError\<close> of a schema, or a plain
  \<^verbatim>\<open>Error\<close> with its message.
\<close>

datatype error = ZodError | Error string

subsection \<open>The schemas\<close>

definition list_or_empty :: "'a list option \<Rightarrow> 'a list" where
  "list_or_empty xs = (case xs of None \<Rightarrow> [] | Some ys \<Rightarrow> ys)"

text \<open>
  \<^verbatim>\<open>z.string().url()\<close> is a parameter, \<open>valid_url\<close>. A successful parse sets
  \<open>brandVoice\<close> to its default when it is missing.
\<close>

definition NormalizedContentSchema_parse ::
  "(string \<Rightarrow> bool) \<Rightarrow> NormalizedContent \<Rightarrow> NormalizedContent option" where
  "NormalizedContentSchema_parse valid_url c =
     (if primaryKeyword c \<noteq> [] \<and> body c \<noteq> [] \<and> valid_url (canonicalUrl c)
         \<and> list_all valid_url (list_or_empty (mediaUrls c))
         \<and> list_all valid_url (list_or_empty (links c))
      then Some (c\<lparr>brandVoice :=
                    Some (case brandVoice c of None \<Rightarrow> Professional | Some v \<Rightarrow> v)\<rparr>)
      else None)"

definition PublishOptionsSchema_parse :: "PublishOptions \<Rightarrow> PublishOptions" where
  "PublishOptionsSchema_parse opts =
     \<lparr>discord_channel_id = discord_channel_id opts,
      dry_run = Some (case dry_run opts of None \<Rightarrow> False | Some b \<Rightarrow> b),
      useUtm = Some (case useUtm opts of None \<Rightarrow> False | Some b \<Rightarrow> b),
      force_retry_failed_targets =
        Some (case force_retry_failed_targets opts of None \<Rightarrow> False | Some b \<Rightarrow> b)\<rparr>"

text \<open>The empty object of \<^verbatim>\<open>options || {}\<close>.\<close>

definition no_options :: PublishOptions where
  "no_options = \<lparr>discord_channel_id = None, dry_run = None, useUtm = None,
     force_retry_failed_targets = None\<rparr>"

definition PublishInputSchema_parse ::
  "(string \<Rightarrow> bool) \<Rightarrow> PublishInput \<Rightarrow> PublishInput option" where
  "PublishInputSchema_parse valid_url input =
     (if request_id input \<noteq> [] \<and> targets input \<noteq> [] then
        (case NormalizedContentSchema_parse valid_url (content input) of
           None \<Rightarrow> None
         | Some c \<Rightarrow>
             Some (input\<lparr>content := c,
                         options := map_option PublishOptionsSchema_parse (options input)\<rparr>))
      else None)"

section \<open>The world: the ledger, the publishers' state and the collaborators\<close>

text \<open>
  The three tables of \<^verbatim>\<open>migrations/001_init.sql\<close>, as lists in the order of
  creation. \<^verbatim>\<open>post_requests\<close> is keyed by the request id, \<^verbatim>\<open>post_results\<close> by
  the request id and the target (its unique index). \<open>discord_ready\<close> is the
  \<^verbatim>\<open>isReady\<close> flag of the Discord publisher singleton.
\<close>

record world = effects +
  post_requests :: "(string \<times> PostRequestRow) list"
  post_drafts :: "(string \<times> PlatformDrafts) list"
  post_results :: "(string \<times> TargetResult) list"
  discord_ready :: bool

text \<open>
  What the toolkit calls and does not own: the digest, the URL check, the composer of
  the drafts (\<^verbatim>\<open>seoSocialCompose\<close>, by the payload and the \<^verbatim>\<open>useUtm\<close> flag), the
  clock, the Discord configuration and the platform clients. A client call or a clock
  read answers by the number of events before it, so that answers may change from one
  call to the next; \<open>Inl\<close> is the message of the error thrown.
\<close>

record env =
  digest_sha256 :: "string \<Rightarrow> string"
  valid_url :: "string \<Rightarrow> bool"
  compose_drafts :: "NormalizedContent \<Rightarrow> bool \<Rightarrow> PlatformDrafts"
  now_iso :: "nat \<Rightarrow> string"
  x_postTweet :: "nat \<Rightarrow> string option \<Rightarrow> string + (string \<times> string)"
  x_postThread :: "nat \<Rightarrow> string list \<Rightarrow> string + (string list \<times> string list)"
  discord_botToken :: string
  discord_defaultChannelId :: string
  discord_login :: "nat \<Rightarrow> string + unit"
  discord_channel_is_text :: "nat \<Rightarrow> string \<Rightarrow> string + bool"
  discord_send :: "nat \<Rightarrow> string \<Rightarrow> DiscordEmbed \<Rightarrow> string + (string \<times> string)"

section \<open>store/queries.ts\<close>

text \<open>\<^verbatim>\<open>v || null\<close> and \<^verbatim>\<open>v || undefined\<close> on an optional string: the empty string is falsy.\<close>

definition or_null :: "string option \<Rightarrow> string option" where
  "or_null v = (case v of None \<Rightarrow> None | Some s \<Rightarrow> if s = [] then None else Some s)"

text \<open>
  The four optional columns of a result, written with \<^verbatim>\<open>|| null\<close> by
  \<^verbatim>\<open>insertPostResult\<close> and read with \<^verbatim>\<open>|| undefined\<close> by
  \<^verbatim>\<open>findResultsByRequestId\<close>.
\<close>

definition or_null_columns :: "TargetResult \<Rightarrow> TargetResult" where
  "or_null_columns r =
     \<lparr>target = target r, status = status r,
      platform_id = or_null (platform_id r),
      platform_url = or_null (platform_url r),
      error_message = or_null (error_message r),
      posted_at = or_null (posted_at r)\<rparr>"

definition findRequestById :: "string \<Rightarrow> world \<Rightarrow> PostRequestRow option" where
  "findRequestById requestId w = map_of (post_requests w) requestId"

definition insertPostRequest ::
  "string \<Rightarrow> NormalizedContent \<Rightarrow> string \<Rightarrow> TargetPlatform list \<Rightarrow> PublishOptions option \<Rightarrow>
     world \<Rightarrow> world" where
  "insertPostRequest requestId c contentHash ts opts w =
     w\<lparr>post_requests := post_requests w @
          [(requestId, \<lparr>content_json = c, content_hash = contentHash, targets_json = ts,
                        options_json = opts\<rparr>)]\<rparr>"

definition insertPostDrafts :: "string \<Rightarrow> PlatformDrafts \<Rightarrow> world \<Rightarrow> world" where
  "insertPostDrafts requestId drafts w = w\<lparr>post_drafts := post_drafts w @ [(requestId, drafts)]\<rparr>"

text \<open>
  \<^verbatim>\<open>INSERT ... ON CONFLICT (request_id, target) DO UPDATE\<close>: the row of the same
  request and target is overwritten where it stands; otherwise a row is added.
\<close>

fun upsert_row :: "string \<Rightarrow> TargetResult \<Rightarrow> (string \<times> TargetResult) list \<Rightarrow>
    (string \<times> TargetResult) list" where
  "upsert_row requestId r [] = [(requestId, r)]"
| "upsert_row requestId r ((rid, r') # rows) =
     (if rid = requestId \<and> target r' = target r then (requestId, r) # rows
      else (rid, r') # upsert_row requestId r rows)"

definition insertPostResult :: "string \<Rightarrow> TargetResult \<Rightarrow> world \<Rightarrow> world" where
  "insertPostResult requestId targetResult w =
     w\<lparr>post_results := upsert_row requestId (or_null_columns targetResult) (post_results w)\<rparr>"

definition findResultsByRequestId :: "string \<Rightarrow> world \<Rightarrow> TargetResult list" where
  "findResultsByRequestId requestId w =
     map (\<lambda>row. or_null_columns (snd row))
       (filter (\<lambda>row. fst row = requestId) (post_results w))"

definition findFailedTargets :: "string \<Rightarrow> world \<Rightarrow> TargetPlatform list" where
  "findFailedTargets requestId w =
     map (\<lambda>row. target (snd row))
       (filter (\<lambda>row. fst row = requestId \<and> status (snd row) = Failed) (post_results w))"

section \<open>publishers/x.publisher.ts and publishers/discord.publisher.ts\<close>

text \<open>\<^verbatim>\<open>xs[i]\<close>: \<^verbatim>\<open>undefined\<close> out of range.\<close>

definition nth_opt :: "'a list \<Rightarrow> nat \<Rightarrow> 'a option" where
  "nth_opt xs i = (if i < length xs then Some (xs ! i) else None)"

fun XPostMode_string :: "XPostMode \<Rightarrow> string" where
  "XPostMode_string Single = ''single''"
| "XPostMode_string Thread = ''thread''"

text \<open>The operation that \<^verbatim>\<open>XPublisher.publish\<close> hands to \<^verbatim>\<open>retryWithBackoff\<close>.\<close>

definition xClientOperation :: "env \<Rightarrow> XDraft \<Rightarrow> world \<Rightarrow> (string + XPublishOutput) \<times> world" where
  "xClientOperation env draft w =
     (if mode draft = Single then
        (case x_postTweet env (length (trace w)) (nth_opt (posts draft) 0) of
           Inl e \<Rightarrow> (Inl e, emit (NetworkCall X) w)
         | Inr (i, u) \<Rightarrow>
             (Inr \<lparr>platform_ids = [i], platform_urls = [u]\<rparr>, emit (NetworkCall X) w))
      else
        (case x_postThread env (length (trace w)) (posts draft) of
           Inl e \<Rightarrow> (Inl e, emit (NetworkCall X) w)
         | Inr (ids, urls) \<Rightarrow>
             (Inr \<lparr>platform_ids = ids, platform_urls = urls\<rparr>, emit (NetworkCall X) w)))"

definition XPublisher_publish ::
  "env \<Rightarrow> XDraft \<Rightarrow> bool \<Rightarrow> world \<Rightarrow> (string + XPublishOutput) \<times> world" where
  "XPublisher_publish env draft dry w =
     (let w0 = emit (PublisherInvoked X dry) w in
      if dry then
        (Inr \<lparr>platform_ids =
                 map (\<lambda>i. ''dry_run_tweet_'' @ showNat i) [0..<length (posts draft)],
               platform_urls =
                 map (\<lambda>i. ''https://twitter.com/i/web/status/dry_run_tweet_'' @ showNat i)
                   [0..<length (posts draft)]\<rparr>, w0)
      else retryWithBackoff (xClientOperation env draft) config_retry
             (''X publish ('' @ XPostMode_string (mode draft) @ '')'') w0)"

definition ensureClient :: "env \<Rightarrow> world \<Rightarrow> (string + unit) \<times> world" where
  "ensureClient env w =
     (if discord_ready w then (Inr (), w)
      else if discord_botToken env = [] then (Inl ''Discord bot token is not configured'', w)
      else (case discord_login env (length (trace w)) of
              Inl e \<Rightarrow> (Inl e, emit (NetworkCall Discord) w)
            | Inr u \<Rightarrow> (Inr (), (emit (NetworkCall Discord) w)\<lparr>discord_ready := True\<rparr>)))"

text \<open>The operation that \<^verbatim>\<open>DiscordPublisher.publish\<close> hands to \<^verbatim>\<open>retryWithBackoff\<close>.\<close>

definition discordClientOperation ::
  "env \<Rightarrow> string \<Rightarrow> DiscordEmbed \<Rightarrow> world \<Rightarrow> (string + string \<times> string) \<times> world" where
  "discordClientOperation env channel_id e w =
     (case discord_channel_is_text env (length (trace w)) channel_id of
        Inl err \<Rightarrow> (Inl err, emit (NetworkCall Discord) w)
      | Inr isText \<Rightarrow>
          if \<not> isText
          then (Inl (''Channel '' @ channel_id @ '' not found or is not a text channel''),
                emit (NetworkCall Discord) w)
          else (case discord_send env (length (trace (emit (NetworkCall Discord) w))) channel_id e of
                  Inl err \<Rightarrow> (Inl err, emit (NetworkCall Discord) (emit (NetworkCall Discord) w))
                | Inr r \<Rightarrow> (Inr r, emit (NetworkCall Discord) (emit (NetworkCall Discord) w))))"

definition DiscordPublisher_publish ::
  "env \<Rightarrow> string \<Rightarrow> DiscordEmbed \<Rightarrow> bool \<Rightarrow> world \<Rightarrow> (string + string \<times> string) \<times> world" where
  "DiscordPublisher_publish env channel_id e dry w =
     (let w0 = emit (PublisherInvoked Discord dry) w in
      if dry then
        (Inr (''dry_run_message_id'',
              ''https://discord.com/channels/@me/'' @ channel_id @ ''/dry_run''), w0)
      else (case ensureClient env w0 of
              (Inl err, w1) \<Rightarrow> (Inl err, w1)
            | (Inr u, w1) \<Rightarrow>
                retryWithBackoff (discordClientOperation env channel_id e) config_retry
                  (''Discord publish to '' @ channel_id) w1))"

section \<open>tools/publish-post.ts\<close>

definition failed_result :: "TargetPlatform \<Rightarrow> string \<Rightarrow> TargetResult" where
  "failed_result t errorMessage =
     \<lparr>target = t, status = Failed, platform_id = None, platform_url = None,
      error_message = Some errorMessage, posted_at = None\<rparr>"

text \<open>\<^verbatim>\<open>opts.discord_channel_id || config.discord.defaultChannelId\<close>.\<close>

definition channelId :: "env \<Rightarrow> PublishOptions \<Rightarrow> string" where
  "channelId env opts =
     (case discord_channel_id opts of
        None \<Rightarrow> discord_defaultChannelId env
      | Some s \<Rightarrow> if s \<noteq> [] then s else discord_defaultChannelId env)"

text \<open>The three tables together.\<close>

definition ledger ::
  "world \<Rightarrow> (string \<times> PostRequestRow) list \<times> (string \<times> PlatformDrafts) list
     \<times> (string \<times> TargetResult) list" where
  "ledger w = (post_requests w, post_drafts w, post_results w)"

text \<open>
  The body of the loop of \<^verbatim>\<open>publishToTargets\<close>, its \<^verbatim>\<open>try\<close> and its
  \<^verbatim>\<open>catch\<close>: one target, one result. \<^verbatim>\<open>posted_at\<close> reads the clock.
\<close>

definition publishTarget ::
  "env \<Rightarrow> PublishOptions \<Rightarrow> PlatformDrafts \<Rightarrow> TargetPlatform \<Rightarrow> world \<Rightarrow> TargetResult \<times> world" where
  "publishTarget env opts drafts t w =
     (case t of
        X \<Rightarrow>
          (case XPublisher_publish env (x_draft drafts) (dry_run opts = Some True) w of
             (Inr result, w1) \<Rightarrow>
               (\<lparr>target = X, status = Success,
                 platform_id = nth_opt (platform_ids result) 0,
                 platform_url = nth_opt (platform_urls result) 0,
                 error_message = None,
                 posted_at = Some (now_iso env (length (trace w1)))\<rparr>, emit ClockRead w1)
           | (Inl errorMessage, w1) \<Rightarrow> (failed_result X errorMessage, w1))
      | Discord \<Rightarrow>
          (if channelId env opts = []
           then (failed_result Discord ''Discord channel ID is required'', w)
           else
             (case DiscordPublisher_publish env (channelId env opts)
                     (embed (discord_draft drafts)) (dry_run opts = Some True) w of
                (Inr (pid, purl), w1) \<Rightarrow>
                  (\<lparr>target = Discord, status = Success, platform_id = Some pid,
                    platform_url = Some purl, error_message = None,
                    posted_at = Some (now_iso env (length (trace w1)))\<rparr>, emit ClockRead w1)
              | (Inl errorMessage, w1) \<Rightarrow> (failed_result Discord errorMessage, w1))))"

fun publishLoop ::
  "env \<Rightarrow> PublishOptions \<Rightarrow> PlatformDrafts \<Rightarrow> TargetPlatform list \<Rightarrow> TargetResult list \<Rightarrow> world \<Rightarrow>
     TargetResult list \<times> world" where
  "publishLoop env opts drafts [] results w = (results, w)"
| "publishLoop env opts drafts (t # ts) results w =
     (case publishTarget env opts drafts t w of
        (r, w1) \<Rightarrow> publishLoop env opts drafts ts (results @ [r]) w1)"

definition publishToTargets ::
  "env \<Rightarrow> NormalizedContent \<Rightarrow> TargetPlatform list \<Rightarrow> PublishOptions \<Rightarrow> PlatformDrafts option \<Rightarrow>
     world \<Rightarrow> TargetResult list \<times> world" where
  "publishToTargets env c ts opts0 drafts0 w =
     (let opts = PublishOptionsSchema_parse opts0;
          drafts = (case drafts0 of
                      Some d \<Rightarrow> d
                    | None \<Rightarrow> compose_drafts env c (useUtm opts = Some True))
      in publishLoop env opts drafts ts [] w)"

definition computeOverallStatus :: "TargetResult list \<Rightarrow> TargetPlatform list \<Rightarrow> OverallStatus" where
  "computeOverallStatus results ts =
     (let successCount = length (filter (\<lambda>r. status r = Success) results);
          totalCount = length ts
      in if successCount = 0 then OverallFailed
         else if successCount = totalCount then OverallSuccess
         else OverallPartial)"

definition content_mismatch :: string where
  "content_mismatch = ''Request ID content mismatch: same request_id with different content''"

definition publishPost :: "env \<Rightarrow> PublishInput \<Rightarrow> world \<Rightarrow> (error + PublishOutput) \<times> world" where
  "publishPost env input w =
     (case PublishInputSchema_parse (valid_url env) input of
        None \<Rightarrow> (Inl ZodError, w)
      | Some validated \<Rightarrow>
          (let rid = request_id validated;
               ts = targets validated;
               opts = PublishOptionsSchema_parse
                        (case options validated of None \<Rightarrow> no_options | Some v \<Rightarrow> v);
               hash = generateContentHash (digest_sha256 env) (content validated);
               c = sortedInPlace (content validated)
           in case findRequestById rid w of
                Some existingRequest \<Rightarrow>
                  if content_hash existingRequest \<noteq> hash then (Inl (Error content_mismatch), w)
                  else
                    (let existingResults = findResultsByRequestId rid w;
                         failedTargets = findFailedTargets rid w
                     in if force_retry_failed_targets opts = Some True \<and> failedTargets \<noteq> [] then
                          (case publishToTargets env c failedTargets opts None w of
                             (retryResults, w1) \<Rightarrow>
                               (let w2 = fold (insertPostResult rid) retryResults w1;
                                    updatedResults = findResultsByRequestId rid w2
                                in (Inr \<lparr>out_request_id = rid, out_content_hash = hash,
                                         overall_status = computeOverallStatus updatedResults ts,
                                         per_target_results = updatedResults\<rparr>, w2)))
                        else
                          (Inr \<lparr>out_request_id = rid, out_content_hash = hash,
                                overall_status = computeOverallStatus existingResults ts,
                                per_target_results = existingResults\<rparr>, w))
              | None \<Rightarrow>
                  (let w1 = insertPostRequest rid c hash ts (options validated) w;
                       drafts = compose_drafts env c (useUtm opts = Some True);
                       w2 = insertPostDrafts rid drafts w1
                   in case publishToTargets env c ts opts (Some drafts) w2 of
                        (targetResults, w3) \<Rightarrow>
                          (Inr \<lparr>out_request_id = rid, out_content_hash = hash,
                                overall_status = computeOverallStatus targetResults ts,
                                per_target_results = targetResults\<rparr>,
                           fold (insertPostResult rid) targetResults w3))))"

text \<open>The caller asked for a retry of the failed targets.\<close>

definition requested_retry :: "PublishInput \<Rightarrow> bool" where
  "requested_retry input =
     (case options input of
        None \<Rightarrow> False
      | Some opts \<Rightarrow> force_retry_failed_targets opts = Some True)"

text \<open>
  A recorded result after a retry: a failure is replaced by the result of the retry of
  its target, as the ledger stores it; any other result stays as it is.
\<close>

definition retried :: "TargetResult list \<Rightarrow> TargetResult \<Rightarrow> TargetResult option" where
  "retried retryResults r =
     (if status r = Failed
      then map_option or_null_columns (find (\<lambda>x. target x = target r) retryResults)
      else Some r)"

text \<open>The targets whose publisher has been called, in the order of the calls.\<close>

fun invoked :: "event list \<Rightarrow> TargetPlatform list" where
  "invoked [] = []"
| "invoked (PublisherInvoked t d # es) = t # invoked es"
| "invoked (e # es) = invoked es"

text \<open>
  What the claims observe of a world: the ledger, and the publishers that have been
  called.
\<close>

definition obs ::
  "world \<Rightarrow> ((string \<times> PostRequestRow) list \<times> (string \<times> PlatformDrafts) list
     \<times> (string \<times> TargetResult) list) \<times> TargetPlatform list" where
  "obs w = (ledger w, invoked (trace w))"

text \<open>
  The two forms of a result of \<^verbatim>\<open>publishToTargets\<close>: a failure with the message of
  the error caught and nothing else, or a success with its time and no error message.
\<close>

definition result_shape :: "TargetResult \<Rightarrow> bool" where
  "result_shape r =
     (case status r of
        Failed \<Rightarrow> error_message r \<noteq> None \<and> platform_id r = None \<and> platform_url r = None
                   \<and> posted_at r = None
      | Success \<Rightarrow> error_message r = None \<and> posted_at r \<noteq> None
      | Skipped \<Rightarrow> False)"

text \<open>
  A value is present when it is there and not the empty string (the empty string is
  falsy, and the ledger stores it as \<^verbatim>\<open>NULL\<close>). The collaborators behave well when
  every error a platform client throws has a message, every post comes back with an id
  and a URL, a thread with at least one of each, and the clock answers with a time. A
  result is complete when it is a failure with an error message, or a success with a
  platform id, a URL and a time.
\<close>

definition present :: "string option \<Rightarrow> bool" where
  "present v = (v \<noteq> None \<and> v \<noteq> Some [])"


definition complete_result :: "TargetResult \<Rightarrow> bool" where
  "complete_result r =
     (case status r of
        Failed \<Rightarrow> present (error_message r)
      | Success \<Rightarrow> present (platform_id r) \<and> present (platform_url r) \<and> present (posted_at r)
      | Skipped \<Rightarrow> False)"



text \<open>
  The targets that succeeded, each as many times as it has a successful result, and
  whether a target has a successful result.
\<close>

definition succeeded :: "TargetResult list \<Rightarrow> TargetPlatform multiset" where
  "succeeded results = mset (map target (filter (\<lambda>r. status r = Success) results))"


section \<open>Example collaborators and requests\<close>

text \<open>
  A composer that makes a single post of the body; a digest that is the identity; an
  environment in which the Discord client works. In \<open>example_env\<close> the X client works
  too; in \<open>x_down_env\<close> it rejects every call, with the message \<open>msg\<close>.
\<close>

definition example_drafts :: "NormalizedContent \<Rightarrow> bool \<Rightarrow> PlatformDrafts" where
  "example_drafts c utm =
     \<lparr>x_draft = \<lparr>mode = Single, posts = [body c], hashtags = []\<rparr>,
      discord_draft =
        \<lparr>channel_id_suggestion = None,
         embed = \<lparr>title = primaryKeyword c, description = body c, url = Some (canonicalUrl c),
                   color = None, embed_fields = None, image_url = None, footer_text = None,
                   timestamp = None\<rparr>\<rparr>\<rparr>"

definition x_down_env :: "string \<Rightarrow> env" where
  "x_down_env msg =
     \<lparr>digest_sha256 = (\<lambda>s. s),
      valid_url = (\<lambda>u. take 8 u = ''https://''),
      compose_drafts = example_drafts,
      now_iso = (\<lambda>k. ''2024-01-15T10:30:00.000Z''),
      x_postTweet = (\<lambda>k text. Inl msg),
      x_postThread = (\<lambda>k texts. Inl msg),
      discord_botToken = ''bot-token'',
      discord_defaultChannelId = [],
      discord_login = (\<lambda>k. Inr ()),
      discord_channel_is_text = (\<lambda>k ch. Inr True),
      discord_send = (\<lambda>k ch e. Inr (''9001'', ''https://discord.com/channels/1/42/9001''))\<rparr>"

definition example_env :: env where
  "example_env =
     (x_down_env [])\<lparr>x_postTweet :=
        (\<lambda>k text. Inr (''1001'', ''https://twitter.com/i/web/status/1001''))\<rparr>"

definition example_content :: NormalizedContent where
  "example_content =
     \<lparr>topic = None, primaryKeyword = ''seo'', secondaryKeywords = None, body = ''Hello'',
      cta = None, canonicalUrl = ''https://e.com/p'', mediaUrls = None,
      tags = Some [''ts'', ''js''], links = None, brandVoice = None, metadata = None\<rparr>"

definition example_options :: PublishOptions where
  "example_options = \<lparr>discord_channel_id = Some ''42'', dry_run = None, useUtm = None,
     force_retry_failed_targets = None\<rparr>"

definition example_input :: PublishInput where
  "example_input = \<lparr>request_id = ''req-1'', content = example_content,
     targets = [X, Discord], options = Some example_options\<rparr>"

definition empty_world :: world where
  "empty_world = \<lparr>trace = [], post_requests = [], post_drafts = [], post_results = [],
     discord_ready = False\<rparr>"

text \<open>
  A ledger that holds the request \<open>req-1\<close> of \<open>example_input\<close> after a partial
  failure: X failed, Discord succeeded.
\<close>

definition recorded_world :: world where
  "recorded_world =
     \<lparr>trace = [],
      post_requests =
        [(''req-1'',
          \<lparr>content_json = example_content,
           content_hash = generateContentHash (\<lambda>s. s) example_content,
           targets_json = [X, Discord],
           options_json = Some (PublishOptionsSchema_parse example_options)\<rparr>)],
      post_drafts = [(''req-1'', example_drafts example_content False)],
      post_results =
        [(''req-1'', failed_result X ''503 Service Unavailable''),
         (''req-1'',
          \<lparr>target = Discord, status = Success, platform_id = Some ''9001'',
           platform_url = Some ''https://discord.com/channels/1/42/9001'',
           error_message = None, posted_at = Some ''2024-01-15T10:30:00.000Z''\<rparr>)],
      discord_ready = True\<rparr>"


definition retry_input :: PublishInput where
  "retry_input =
     example_input\<lparr>options := Some (example_options\<lparr>force_retry_failed_targets := Some True\<rparr>)\<rparr>"

definition discord_only_input :: PublishInput where
  "discord_only_input = example_input\<lparr>targets := [Discord]\<rparr>"



section \<open>Properties of the retry executor\<close>

lemma retry_loop_unfold:
  "retry_loop fn config ctx attempt delay lastError w =
     (if attempt \<le> maxAttempts config then
        (case fn (emit (LogAttempt attempt ctx) w) of
           (Inr v, w1) \<Rightarrow> (Inr v, w1)
         | (Inl e, w1) \<Rightarrow>
             if attempt = maxAttempts config
             then (Inl e, emit (LogAllFailed attempt ctx e) w1)
             else retry_loop fn config ctx (attempt + 1)
                    (min (delay * backoffMultiplier config) (maxDelayMs config)) (Some e)
                    (emit (Sleep delay) (emit (LogRetrying attempt ctx e delay) w1)))
      else (Inl (case lastError of Some e \<Rightarrow> e
                 | None \<Rightarrow> ''Retry failed with unknown error''), w))"
  by (rule retry_loop.simps)

declare retry_loop.simps [simp del]

text \<open>
  C8. With the policy \<open>maxAttempts = 3\<close>, \<open>initialDelayMs = 1000\<close>,
  \<open>backoffMultiplier = 2\<close>, \<open>maxDelayMs = 10000\<close> and an operation that fails on
  every attempt, \<open>retryWithBackoff\<close> calls the operation exactly three times, sleeps
  exactly twice, 1000 ms and then 2000 ms, and raises the failure of the third attempt
  (\<open>errs 2\<close>), whatever the first two failures were.
\<close>

theorem retryWithBackoff_three_attempts:
  "retryWithBackoff (failingOperation errs) config_retry ctx \<lparr>trace = []\<rparr> =
     (Inl (errs 2),
      \<lparr>trace = [LogAttempt 1 ctx, OperationInvoked, LogRetrying 1 ctx (errs 0) 1000, Sleep 1000,
                LogAttempt 2 ctx, OperationInvoked, LogRetrying 2 ctx (errs 1) 2000, Sleep 2000,
                LogAttempt 3 ctx, OperationInvoked, LogAllFailed 3 ctx (errs 2)]\<rparr>)
   \<and> count_list (trace (snd (retryWithBackoff (failingOperation errs) config_retry ctx
          \<lparr>trace = []\<rparr>))) OperationInvoked = 3
   \<and> sleeps (trace (snd (retryWithBackoff (failingOperation errs) config_retry ctx
          \<lparr>trace = []\<rparr>))) = [1000, 2000]"
proof -
  have run: "retryWithBackoff (failingOperation errs) config_retry ctx \<lparr>trace = []\<rparr> =
     (Inl (errs 2),
      \<lparr>trace = [LogAttempt 1 ctx, OperationInvoked, LogRetrying 1 ctx (errs 0) 1000, Sleep 1000,
                LogAttempt 2 ctx, OperationInvoked, LogRetrying 2 ctx (errs 1) 2000, Sleep 2000,
                LogAttempt 3 ctx, OperationInvoked, LogAllFailed 3 ctx (errs 2)]\<rparr>)"
    by (simp add: retryWithBackoff_def config_retry_def failingOperation_def emit_def
        retry_loop_unfold numeral_2_eq_2)
  show ?thesis
    unfolding run by simp
qed

text \<open>
  When the initial delay is within the cap, every sleep is within the cap, and the time
  slept in one call is at most \<open>(maxAttempts - 1) * maxDelayMs\<close>. The operation itself
  is assumed not to sleep.
\<close>

lemma sleeps_append: "sleeps (xs @ ys) = sleeps xs @ sleeps ys"
  by (induction xs rule: sleeps.induct) simp_all

lemma sleeps_emit:
  "sleeps (trace (emit e w)) = sleeps (trace w) @ sleeps [e]"
  by (simp add: emit_def sleeps_append)

lemma retry_loop_sleeps_capped:
  shows "\<forall>w. sleeps (trace (snd (fn w))) = sleeps (trace w) \<Longrightarrow>
    delay \<le> maxDelayMs config \<Longrightarrow>
    \<exists>ds. sleeps (trace (snd (retry_loop fn config ctx attempt delay lastError w))) =
            sleeps (trace w) @ ds
        \<and> (\<forall>d\<in>set ds. d \<le> maxDelayMs config)
        \<and> int (length ds) \<le> max 0 (maxAttempts config - attempt)"
proof (induction fn config ctx attempt delay lastError w rule: retry_loop.induct)
  case (1 fn config ctx attempt delay lastError w)
  note quiet = "1.prems"(1) [rule_format]
  show ?case
  proof (cases "attempt \<le> maxAttempts config")
    case False
    then show ?thesis
      by (subst retry_loop_unfold) simp
  next
    case le: True
    obtain r w1 where fw: "fn (emit (LogAttempt attempt ctx) w) = (r, w1)"
      by (cases "fn (emit (LogAttempt attempt ctx) w)")
    have w1: "sleeps (trace w1) = sleeps (trace w)"
    proof -
      have "sleeps (trace w1) = sleeps (trace (emit (LogAttempt attempt ctx) w))"
        using quiet [of "emit (LogAttempt attempt ctx) w"] fw by simp
      then show ?thesis by (simp add: sleeps_emit)
    qed
    show ?thesis
    proof (cases r)
      case (Inr v)
      with le fw w1 show ?thesis
        by (subst retry_loop_unfold) simp
    next
      case (Inl e)
      show ?thesis
      proof (cases "attempt = maxAttempts config")
        case True
        with le fw w1 Inl show ?thesis
          by (subst retry_loop_unfold) (simp add: sleeps_emit)
      next
        case ne: False
        let ?d = "min (delay * backoffMultiplier config) (maxDelayMs config)"
        let ?w = "emit (Sleep delay) (emit (LogRetrying attempt ctx e delay) w1)"
        have "?d \<le> maxDelayMs config" by simp
        from "1.IH" [OF le fw [symmetric] Inl ne "1.prems"(1) this]
        obtain ds where ds:
          "sleeps (trace (snd (retry_loop fn config ctx (attempt + 1) ?d (Some e) ?w))) =
             sleeps (trace ?w) @ ds"
          "\<forall>d\<in>set ds. d \<le> maxDelayMs config"
          "int (length ds) \<le> max 0 (maxAttempts config - (attempt + 1))"
          by blast
        have unf: "retry_loop fn config ctx attempt delay lastError w =
               retry_loop fn config ctx (attempt + 1) ?d (Some e) ?w"
          using le fw Inl ne by (subst retry_loop_unfold) simp
        have "sleeps (trace ?w) = sleeps (trace w) @ [delay]"
          by (simp add: sleeps_emit w1)
        with ds "1.prems" le ne show ?thesis
          unfolding unf
          by (intro exI [of _ "delay # ds"]) auto
      qed
    qed
  qed
qed

lemma sum_list_le_length_times:
  "(\<forall>d\<in>set ds. d \<le> (m::int)) \<Longrightarrow> sum_list ds \<le> int (length ds) * m"
  by (induction ds) (auto simp: algebra_simps)

lemma retryWithBackoff_total_sleep_bounded:
  assumes quiet: "\<And>w. sleeps (trace (snd (fn w))) = sleeps (trace w)"
    and "1 \<le> maxAttempts config" and "0 \<le> initialDelayMs config"
    and "initialDelayMs config \<le> maxDelayMs config"
  shows "\<exists>ds. sleeps (trace (snd (retryWithBackoff fn config ctx w))) = sleeps (trace w) @ ds
      \<and> (\<forall>d\<in>set ds. d \<le> maxDelayMs config)
      \<and> sum_list ds \<le> (maxAttempts config - 1) * maxDelayMs config"
proof -
  from retry_loop_sleeps_capped [where fn = fn and config = config and delay = "initialDelayMs config"
      and ctx = ctx and attempt = 1 and lastError = None and w = w, OF _ assms(4)] quiet
  obtain ds where ds:
    "sleeps (trace (snd (retryWithBackoff fn config ctx w))) = sleeps (trace w) @ ds"
    "\<forall>d\<in>set ds. d \<le> maxDelayMs config"
    "int (length ds) \<le> max 0 (maxAttempts config - 1)"
    unfolding retryWithBackoff_def by blast
  have m: "0 \<le> maxDelayMs config" using assms by linarith
  have "sum_list ds \<le> int (length ds) * maxDelayMs config"
    using ds(2) by (rule sum_list_le_length_times)
  also have "\<dots> \<le> (maxAttempts config - 1) * maxDelayMs config"
    using ds(3) assms(2) m by (intro mult_right_mono) auto
  finally show ?thesis using ds by blast
qed

text \<open>
  C9. The cap \<open>maxDelayMs\<close> is applied when the delay is multiplied, after the sleep,
  so the first sleep is \<open>initialDelayMs\<close> as it stands. With \<open>maxAttempts = 3\<close>,
  \<open>initialDelayMs = 5000\<close>, \<open>maxDelayMs = 1000\<close>, \<open>backoffMultiplier = 2\<close> and an
  operation that always fails, the sleeps are 5000 ms and 1000 ms: the first exceeds
  \<open>min 5000 1000\<close>, and the total of 6000 ms exceeds \<open>3 * 1000\<close>.
\<close>

theorem retryWithBackoff_first_sleep_uncapped:
  "sleeps (trace (snd (retryWithBackoff (failingOperation errs)
      \<lparr>maxAttempts = 3, initialDelayMs = 5000, maxDelayMs = 1000, backoffMultiplier = 2\<rparr>
      ctx \<lparr>trace = []\<rparr>))) = [5000, 1000]
   \<and> (5000::int) > min 5000 1000
   \<and> sum_list (sleeps (trace (snd (retryWithBackoff (failingOperation errs)
      \<lparr>maxAttempts = 3, initialDelayMs = 5000, maxDelayMs = 1000, backoffMultiplier = 2\<rparr>
      ctx \<lparr>trace = []\<rparr>)))) > 3 * 1000"
  by (simp add: retryWithBackoff_def failingOperation_def emit_def retry_loop_unfold)

section \<open>Properties of the content hash\<close>

lemma sort_defaulted_cong:
  "mset (case a of None \<Rightarrow> [] | Some xs \<Rightarrow> xs) = mset (case b of None \<Rightarrow> [] | Some xs \<Rightarrow> xs) \<Longrightarrow>
   (case a of None \<Rightarrow> [] | Some xs \<Rightarrow> sort xs) = (case b of None \<Rightarrow> [] | Some xs \<Rightarrow> sort (xs::string list))"
proof -
  assume m: "mset (case a of None \<Rightarrow> [] | Some xs \<Rightarrow> xs) = mset (case b of None \<Rightarrow> [] | Some xs \<Rightarrow> xs)"
  have s: "(case c of None \<Rightarrow> [] | Some xs \<Rightarrow> sort xs) = sort (case c of None \<Rightarrow> [] | Some xs \<Rightarrow> (xs::string list))" for c
    by (cases c) simp_all
  have "sort (case a of None \<Rightarrow> [] | Some xs \<Rightarrow> xs) = sort (case b of None \<Rightarrow> [] | Some xs \<Rightarrow> xs)"
    using m by (intro properties_for_sort) simp_all
  then show ?thesis by (simp only: s)
qed

lemma BrandVoice_defaulted:
  "(case a of None \<Rightarrow> ''professional'' | Some v \<Rightarrow> BrandVoice_string v)
     = BrandVoice_string (case a of None \<Rightarrow> Professional | Some v \<Rightarrow> v)"
  by (cases a) simp_all

lemma stableContent_semantically_equal:
  assumes "semantically_equal a b"
  shows "stableContent a = stableContent b"
proof -
  note e = assms [unfolded semantically_equal_def]
  have t: "(case tags a of None \<Rightarrow> [] | Some xs \<Rightarrow> sort xs)
         = (case tags b of None \<Rightarrow> [] | Some xs \<Rightarrow> sort xs)"
    using e by (intro sort_defaulted_cong) simp
  have k: "(case secondaryKeywords a of None \<Rightarrow> [] | Some xs \<Rightarrow> sort xs)
         = (case secondaryKeywords b of None \<Rightarrow> [] | Some xs \<Rightarrow> sort xs)"
    using e by (intro sort_defaulted_cong) simp
  have l: "(case links a of None \<Rightarrow> [] | Some xs \<Rightarrow> sort xs)
         = (case links b of None \<Rightarrow> [] | Some xs \<Rightarrow> sort xs)"
    using e by (intro sort_defaulted_cong) simp
  have m: "(case mediaUrls a of None \<Rightarrow> [] | Some xs \<Rightarrow> sort xs)
         = (case mediaUrls b of None \<Rightarrow> [] | Some xs \<Rightarrow> sort xs)"
    using e by (intro sort_defaulted_cong) simp
  show ?thesis
    unfolding stableContent_def t k l m BrandVoice_defaulted using e by simp
qed

lemma stableKeys:
  "sort (map fst (stableContent c)) = [''body'', ''brandVoice'', ''canonicalUrl'', ''cta'', ''links'',
  ''mediaUrls'', ''metadata'', ''primaryKeyword'', ''secondaryKeywords'', ''tags'', ''topic'']"
  by (simp add: stableContent_def)

text \<open>
  C4. Semantically equal payloads have the same fingerprint: the four order-independent
  arrays may be reordered, and an optional field may be omitted or set to its default.
\<close>

theorem generateContentHash_deterministic:
  "semantically_equal a b \<Longrightarrow> generateContentHash sha256 a = generateContentHash sha256 b"
  by (simp add: generateContentHash_def contentString_def stableContent_semantically_equal)

theorem generateContentHash_deterministic_witness:
  "semantically_equal
     \<lparr>topic = None, primaryKeyword = ''seo'', secondaryKeywords = Some [''b'', ''a''],
      body = ''Hello'', cta = Some '''', canonicalUrl = ''https://e.com/p'',
      mediaUrls = None, tags = Some [''ts'', ''js'', ''css''], links = Some [], brandVoice = None,
      metadata = None\<rparr>
     \<lparr>topic = Some '''', primaryKeyword = ''seo'', secondaryKeywords = Some [''a'', ''b''],
      body = ''Hello'', cta = None, canonicalUrl = ''https://e.com/p'',
      mediaUrls = Some [], tags = Some [''css'', ''ts'', ''js''], links = None,
      brandVoice = Some Professional, metadata = Some []\<rparr>
   \<and> generateContentHash (\<lambda>s. s)
     \<lparr>topic = None, primaryKeyword = ''seo'', secondaryKeywords = Some [''b'', ''a''],
      body = ''Hello'', cta = Some '''', canonicalUrl = ''https://e.com/p'',
      mediaUrls = None, tags = Some [''ts'', ''js'', ''css''], links = Some [], brandVoice = None,
      metadata = None\<rparr>
   = generateContentHash (\<lambda>s. s)
     \<lparr>topic = Some '''', primaryKeyword = ''seo'', secondaryKeywords = Some [''a'', ''b''],
      body = ''Hello'', cta = None, canonicalUrl = ''https://e.com/p'',
      mediaUrls = Some [], tags = Some [''css'', ''ts'', ''js''], links = None,
      brandVoice = Some Professional, metadata = Some []\<rparr>"
proof -
  have h: "semantically_equal
     \<lparr>topic = None, primaryKeyword = ''seo'', secondaryKeywords = Some [''b'', ''a''],
      body = ''Hello'', cta = Some '''', canonicalUrl = ''https://e.com/p'',
      mediaUrls = None, tags = Some [''ts'', ''js'', ''css''], links = Some [], brandVoice = None,
      metadata = None\<rparr>
     \<lparr>topic = Some '''', primaryKeyword = ''seo'', secondaryKeywords = Some [''a'', ''b''],
      body = ''Hello'', cta = None, canonicalUrl = ''https://e.com/p'',
      mediaUrls = Some [], tags = Some [''css'', ''ts'', ''js''], links = None,
      brandVoice = Some Professional, metadata = Some []\<rparr>"
    by (simp add: semantically_equal_def)
  from h generateContentHash_deterministic [OF h, of "\<lambda>s. s"] show ?thesis by blast
qed

text \<open>
  Quoting loses nothing: \<open>quoteChar\<close> is a prefix code, so \<open>QuoteJSONString\<close> is
  injective. The canonical string therefore changes with every semantic change of one of
  the six scalars at the top of the payload, and so does the fingerprint under a digest
  without collisions.
\<close>

lemma hexDigit_inj:
  assumes "m < 16" and "n < 16" and "hexDigit m = hexDigit n"
  shows "m = n"
proof -
  have d: "distinct ''0123456789abcdef''" by simp
  have l: "length ''0123456789abcdef'' = 16" by simp
  from assms show ?thesis
    unfolding hexDigit_def using nth_eq_iff_index_eq [OF d, of m n] l by simp
qed

lemma hexDigit_mod: "hexDigit (n mod 16) = hexDigit n"
  by (simp add: hexDigit_def)

lemma control_char_eq:
  assumes "of_char c < (32::nat)" and "of_char c' < (32::nat)"
    and h1: "hexDigit (of_char c div 16) = hexDigit (of_char c' div 16)"
    and h2: "hexDigit (of_char c) = hexDigit (of_char c')"
  shows "c = c'"
proof -
  let ?a = "of_char c :: nat" and ?b = "of_char c' :: nat"
  have "?a div 16 = ?b div 16"
    using assms(1,2) h1 by (intro hexDigit_inj) simp_all
  moreover have "?a mod 16 = ?b mod 16"
    using h2 hexDigit_inj [of "?a mod 16" "?b mod 16"] by (simp add: hexDigit_mod)
  ultimately have "?a = ?b"
    by (metis div_mult_mod_eq)
  then show ?thesis by simp
qed

lemma quoteChar_prefix:
  "quoteChar c @ r = quoteChar c' @ r' \<Longrightarrow> c = c' \<and> r = r'"
  unfolding quoteChar_def
  by (auto split: if_splits dest: control_char_eq)


lemma quoteChar_not_Nil: "quoteChar c \<noteq> []"
  by (simp add: quoteChar_def)

lemma concat_quoteChar_inj:
  "concat (map quoteChar s) = concat (map quoteChar t) \<Longrightarrow> s = t"
proof (induction s arbitrary: t)
  case Nil
  then show ?case by (cases t) (simp_all add: quoteChar_not_Nil)
next
  case (Cons c s)
  show ?case
  proof (cases t)
    case Nil
    with Cons.prems show ?thesis by (simp add: quoteChar_not_Nil)
  next
    case (Cons c' t')
    with Cons.prems have "quoteChar c @ concat (map quoteChar s)
        = quoteChar c' @ concat (map quoteChar t')" by simp
    from quoteChar_prefix [OF this] Cons.IH [of t'] Cons show ?thesis by simp
  qed
qed

lemma QuoteJSONString_inj: "QuoteJSONString s = QuoteJSONString t \<longleftrightarrow> s = t"
  by (auto simp: QuoteJSONString_def dest: concat_quoteChar_inj)

lemma BrandVoice_string_inj: "BrandVoice_string a = BrandVoice_string b \<longleftrightarrow> a = b"
  by (cases a; cases b) simp_all

lemma contentString_form:
  "contentString c =
     ''{'' @ join '',''
       [QuoteJSONString ''body'' @ '':'' @ QuoteJSONString (body c),
        QuoteJSONString ''brandVoice'' @ '':'' @ QuoteJSONString
          (BrandVoice_string (case brandVoice c of None \<Rightarrow> Professional | Some v \<Rightarrow> v)),
        QuoteJSONString ''canonicalUrl'' @ '':'' @ QuoteJSONString (canonicalUrl c),
        QuoteJSONString ''cta'' @ '':'' @ QuoteJSONString (case cta c of None \<Rightarrow> [] | Some s \<Rightarrow> s),
        QuoteJSONString ''links'' @ '':'' @ SerializeJSONProperty (sort (map fst (stableContent c)))
          (JArr (map JStr (case links c of None \<Rightarrow> [] | Some xs \<Rightarrow> sort xs))),
        QuoteJSONString ''mediaUrls'' @ '':'' @ SerializeJSONProperty (sort (map fst (stableContent c)))
          (JArr (map JStr (case mediaUrls c of None \<Rightarrow> [] | Some xs \<Rightarrow> sort xs))),
        QuoteJSONString ''metadata'' @ '':'' @ SerializeJSONProperty (sort (map fst (stableContent c)))
          (JObj (case metadata c of None \<Rightarrow> [] | Some m \<Rightarrow> m)),
        QuoteJSONString ''primaryKeyword'' @ '':'' @ QuoteJSONString (primaryKeyword c),
        QuoteJSONString ''secondaryKeywords'' @ '':'' @ SerializeJSONProperty (sort (map fst (stableContent c)))
          (JArr (map JStr (case secondaryKeywords c of None \<Rightarrow> [] | Some xs \<Rightarrow> sort xs))),
        QuoteJSONString ''tags'' @ '':'' @ SerializeJSONProperty (sort (map fst (stableContent c)))
          (JArr (map JStr (case tags c of None \<Rightarrow> [] | Some xs \<Rightarrow> sort xs))),
        QuoteJSONString ''topic'' @ '':'' @ QuoteJSONString (case topic c of None \<Rightarrow> [] | Some s \<Rightarrow> s)]
     @ ''}''"
proof -
  let ?K = "sort (map fst (stableContent c))"
  have members: "map (\<lambda>(k, v). (k, SerializeJSONProperty ?K v)) (stableContent c) =
     [(''body'', QuoteJSONString (body c)),
      (''brandVoice'', QuoteJSONString
          (BrandVoice_string (case brandVoice c of None \<Rightarrow> Professional | Some v \<Rightarrow> v))),
      (''canonicalUrl'', QuoteJSONString (canonicalUrl c)),
      (''cta'', QuoteJSONString (case cta c of None \<Rightarrow> [] | Some s \<Rightarrow> s)),
      (''links'', SerializeJSONProperty ?K
          (JArr (map JStr (case links c of None \<Rightarrow> [] | Some xs \<Rightarrow> sort xs)))),
      (''mediaUrls'', SerializeJSONProperty ?K
          (JArr (map JStr (case mediaUrls c of None \<Rightarrow> [] | Some xs \<Rightarrow> sort xs)))),
      (''metadata'', SerializeJSONProperty ?K
          (JObj (case metadata c of None \<Rightarrow> [] | Some m \<Rightarrow> m))),
      (''primaryKeyword'', QuoteJSONString (primaryKeyword c)),
      (''secondaryKeywords'', SerializeJSONProperty ?K
          (JArr (map JStr (case secondaryKeywords c of None \<Rightarrow> [] | Some xs \<Rightarrow> sort xs)))),
      (''tags'', SerializeJSONProperty ?K
          (JArr (map JStr (case tags c of None \<Rightarrow> [] | Some xs \<Rightarrow> sort xs)))),
      (''topic'', QuoteJSONString (case topic c of None \<Rightarrow> [] | Some s \<Rightarrow> s))]"
    unfolding stableContent_def [of c]
    by (simp add: BrandVoice_defaulted del: SerializeJSONProperty.simps(5,6))
  show ?thesis
    unfolding contentString_def SerializeJSONProperty.simps(6) [of _ "stableContent c"] Let_def
      members
    unfolding stableKeys
    by simp
qed


lemma contentString_body:
  "contentString (c\<lparr>body := v\<rparr>) = contentString c \<longleftrightarrow> v = body c"
  unfolding contentString_form stableKeys
  by (simp add: QuoteJSONString_inj BrandVoice_string_inj)

lemma contentString_canonicalUrl:
  "contentString (c\<lparr>canonicalUrl := v\<rparr>) = contentString c \<longleftrightarrow> v = canonicalUrl c"
  unfolding contentString_form stableKeys
  by (simp add: QuoteJSONString_inj BrandVoice_string_inj)

lemma contentString_primaryKeyword:
  "contentString (c\<lparr>primaryKeyword := v\<rparr>) = contentString c \<longleftrightarrow> v = primaryKeyword c"
  unfolding contentString_form stableKeys
  by (simp add: QuoteJSONString_inj BrandVoice_string_inj)

lemma contentString_topic:
  "contentString (c\<lparr>topic := v\<rparr>) = contentString c \<longleftrightarrow>
     (case v of None \<Rightarrow> [] | Some s \<Rightarrow> s) = (case topic c of None \<Rightarrow> [] | Some s \<Rightarrow> s)"
  unfolding contentString_form stableKeys
  by (simp add: QuoteJSONString_inj BrandVoice_string_inj)

lemma contentString_cta:
  "contentString (c\<lparr>cta := v\<rparr>) = contentString c \<longleftrightarrow>
     (case v of None \<Rightarrow> [] | Some s \<Rightarrow> s) = (case cta c of None \<Rightarrow> [] | Some s \<Rightarrow> s)"
  unfolding contentString_form stableKeys
  by (simp add: QuoteJSONString_inj BrandVoice_string_inj)

lemma contentString_brandVoice:
  "contentString (c\<lparr>brandVoice := v\<rparr>) = contentString c \<longleftrightarrow>
     (case v of None \<Rightarrow> Professional | Some b \<Rightarrow> b)
       = (case brandVoice c of None \<Rightarrow> Professional | Some b \<Rightarrow> b)"
  unfolding contentString_form stableKeys
  by (simp add: QuoteJSONString_inj BrandVoice_string_inj)


lemma generateContentHash_scalars_sensitive:
  assumes "inj sha256"
  shows "generateContentHash sha256 (c\<lparr>body := v\<rparr>) = generateContentHash sha256 c
           \<longleftrightarrow> v = body c"
    and "generateContentHash sha256 (c\<lparr>canonicalUrl := v\<rparr>) = generateContentHash sha256 c
           \<longleftrightarrow> v = canonicalUrl c"
    and "generateContentHash sha256 (c\<lparr>primaryKeyword := v\<rparr>) = generateContentHash sha256 c
           \<longleftrightarrow> v = primaryKeyword c"
    and "generateContentHash sha256 (c\<lparr>topic := t\<rparr>) = generateContentHash sha256 c
           \<longleftrightarrow> (case t of None \<Rightarrow> [] | Some s \<Rightarrow> s)
                 = (case topic c of None \<Rightarrow> [] | Some s \<Rightarrow> s)"
    and "generateContentHash sha256 (c\<lparr>cta := t\<rparr>) = generateContentHash sha256 c
           \<longleftrightarrow> (case t of None \<Rightarrow> [] | Some s \<Rightarrow> s)
                 = (case cta c of None \<Rightarrow> [] | Some s \<Rightarrow> s)"
    and "generateContentHash sha256 (c\<lparr>brandVoice := b\<rparr>) = generateContentHash sha256 c
           \<longleftrightarrow> (case b of None \<Rightarrow> Professional | Some x \<Rightarrow> x)
                 = (case brandVoice c of None \<Rightarrow> Professional | Some x \<Rightarrow> x)"
  unfolding generateContentHash_def inj_eq [OF assms]
  by (rule contentString_body contentString_canonicalUrl contentString_primaryKeyword
      contentString_topic contentString_cta contentString_brandVoice)+

text \<open>
  An object whose property names are all outside the property list is written as
  \<open>{}\<close>. So metadata whose keys are not among the eleven names of \<open>stableContent\<close>
  leaves no mark on the fingerprint: it hashes like no metadata at all.
\<close>

lemma map_of_members_None:
  "P \<notin> fst ` set ps \<Longrightarrow> map_of (map (\<lambda>(k, v). (k, f v)) ps) P = None"
  by (induction ps) auto

lemma SerializeJSONProperty_unlisted:
  assumes "\<forall>P\<in>set K. P \<notin> fst ` set ps"
  shows "SerializeJSONProperty K (JObj ps) = ''{}''"
proof -
  have eq: "map (\<lambda>P. case map_of (map (\<lambda>(k, v). (k, SerializeJSONProperty K v)) ps) P of
                    None \<Rightarrow> []
                  | Some strP \<Rightarrow> [QuoteJSONString P @ '':'' @ strP]) K
        = map (\<lambda>P. []) K"
    using assms by (intro map_cong refl) (simp add: map_of_members_None)
  have nil: "concat (map (\<lambda>P. []) xs) = []" for xs :: "string list"
    by (induction xs) simp_all
  show ?thesis
    unfolding SerializeJSONProperty.simps(6) Let_def eq nil by simp
qed

lemma generateContentHash_drops_unlisted_metadata:
  assumes "\<forall>P\<in>set [''body'', ''brandVoice'', ''canonicalUrl'', ''cta'', ''links'',
      ''mediaUrls'', ''metadata'', ''primaryKeyword'', ''secondaryKeywords'', ''tags'', ''topic''].
      P \<notin> fst ` set m"
  shows "generateContentHash sha256 (c\<lparr>metadata := Some m\<rparr>)
       = generateContentHash sha256 (c\<lparr>metadata := None\<rparr>)"
proof -
  let ?K = "[''body'', ''brandVoice'', ''canonicalUrl'', ''cta'', ''links'',
      ''mediaUrls'', ''metadata'', ''primaryKeyword'', ''secondaryKeywords'', ''tags'', ''topic'']"
  have m: "SerializeJSONProperty ?K (JObj m) = ''{}''"
    using assms by (rule SerializeJSONProperty_unlisted)
  have e: "SerializeJSONProperty ?K (JObj []) = ''{}''"
    by (rule SerializeJSONProperty_unlisted) simp
  have members:
    "map (\<lambda>(k, v). (k, SerializeJSONProperty ?K v)) (stableContent (c\<lparr>metadata := Some m\<rparr>))
     = map (\<lambda>(k, v). (k, SerializeJSONProperty ?K v)) (stableContent (c\<lparr>metadata := None\<rparr>))"
    by (simp add: stableContent_def m e del: SerializeJSONProperty.simps(6))
  have "contentString (c\<lparr>metadata := Some m\<rparr>) = contentString (c\<lparr>metadata := None\<rparr>)"
    unfolding contentString_def stableKeys SerializeJSONProperty.simps(6) Let_def members ..
  then show ?thesis by (simp add: generateContentHash_def)
qed

text \<open>
  C5. The fingerprint is meant to change with every scalar of the payload, the values
  under \<open>metadata\<close> included. The property list given to \<^verbatim>\<open>JSON.stringify\<close>
  however filters the properties of \<open>metadata\<close> too: two payloads that differ only
  in \<open>metadata.author\<close> have the same canonical string, and so the same fingerprint
  under every digest.
\<close>

theorem generateContentHash_ignores_metadata:
  "generateContentHash sha256
     \<lparr>topic = None, primaryKeyword = ''seo'', secondaryKeywords = None,
      body = ''Hello'', cta = None, canonicalUrl = ''https://e.com/p'',
      mediaUrls = None, tags = None, links = None, brandVoice = None,
      metadata = Some [(''author'', JStr ''alice'')]\<rparr>
   = generateContentHash sha256
     \<lparr>topic = None, primaryKeyword = ''seo'', secondaryKeywords = None,
      body = ''Hello'', cta = None, canonicalUrl = ''https://e.com/p'',
      mediaUrls = None, tags = None, links = None, brandVoice = None,
      metadata = Some [(''author'', JStr ''bob'')]\<rparr>"
  unfolding generateContentHash_def contentString_def stableKeys
  by (simp add: stableContent_def)

section \<open>Properties of the orchestrator\<close>

subsection \<open>Validation\<close>

lemma parse_content_eq:
  assumes "NormalizedContentSchema_parse u c = Some c'"
  shows "c' = c\<lparr>brandVoice := Some (case brandVoice c of None \<Rightarrow> Professional | Some v \<Rightarrow> v)\<rparr>"
  using assms unfolding NormalizedContentSchema_parse_def by (simp split: if_splits)

lemma parse_semantically_equal:
  assumes "NormalizedContentSchema_parse u c = Some c'"
  shows "semantically_equal c' c"
  unfolding parse_content_eq [OF assms] semantically_equal_def
  by (cases "brandVoice c") simp_all

lemma parse_input_eq:
  assumes "PublishInputSchema_parse u input = Some v"
  shows "\<exists>c'. NormalizedContentSchema_parse u (content input) = Some c' \<and>
           v = input\<lparr>content := c', options := map_option PublishOptionsSchema_parse (options input)\<rparr>
           \<and> request_id input \<noteq> [] \<and> targets input \<noteq> []"
proof (cases "NormalizedContentSchema_parse u (content input)")
  case None
  with assms show ?thesis
    unfolding PublishInputSchema_parse_def by (simp split: if_splits)
next
  case (Some c')
  with assms show ?thesis
    unfolding PublishInputSchema_parse_def by (simp split: if_splits)
qed


lemma parse_content_hash:
  assumes "PublishInputSchema_parse u input = Some v"
  shows "generateContentHash d (content v) = generateContentHash d (content input)"
proof -
  from parse_input_eq [OF assms] obtain c' where
    c: "NormalizedContentSchema_parse u (content input) = Some c'" and v: "content v = c'"
    by force
  from parse_semantically_equal [OF c] have "stableContent c' = stableContent (content input)"
    by (rule stableContent_semantically_equal)
  then show ?thesis by (simp add: generateContentHash_def contentString_def v)
qed

lemma parse_fields:
  assumes "PublishInputSchema_parse u input = Some v"
  shows "request_id v = request_id input" and "targets v = targets input"
    and "options v = map_option PublishOptionsSchema_parse (options input)"
    and "request_id input \<noteq> []" and "targets input \<noteq> []"
  using parse_input_eq [OF assms] by force+

lemma parsed_force_flag:
  assumes "PublishInputSchema_parse u input = Some v"
  shows "force_retry_failed_targets
           (PublishOptionsSchema_parse (case options v of None \<Rightarrow> no_options | Some x \<Rightarrow> x)) = Some True
         \<longleftrightarrow> requested_retry input"
proof (cases "options input")
  case None
  then show ?thesis
    unfolding parse_fields(3) [OF assms] requested_retry_def
    by (simp add: PublishOptionsSchema_parse_def no_options_def)
next
  case (Some opts)
  then show ?thesis
    unfolding parse_fields(3) [OF assms] requested_retry_def
    by (cases "force_retry_failed_targets opts") (simp_all add: PublishOptionsSchema_parse_def)
qed


lemma publishPost_existing:
  assumes p: "PublishInputSchema_parse (valid_url env) input = Some v"
    and f: "findRequestById (request_id input) w = Some existing"
  shows "publishPost env input w =
    (if content_hash existing \<noteq> generateContentHash (digest_sha256 env) (content input)
     then (Inl (Error content_mismatch), w)
     else if requested_retry input \<and> findFailedTargets (request_id input) w \<noteq> [] then
       (case publishToTargets env (sortedInPlace (content v))
               (findFailedTargets (request_id input) w)
               (PublishOptionsSchema_parse (case options v of None \<Rightarrow> no_options | Some x \<Rightarrow> x))
               None w of
          (retryResults, w1) \<Rightarrow>
            (Inr \<lparr>out_request_id = request_id input,
                  out_content_hash = generateContentHash (digest_sha256 env) (content input),
                  overall_status = computeOverallStatus
                    (findResultsByRequestId (request_id input)
                       (fold (insertPostResult (request_id input)) retryResults w1))
                    (targets input),
                  per_target_results = findResultsByRequestId (request_id input)
                       (fold (insertPostResult (request_id input)) retryResults w1)\<rparr>,
             fold (insertPostResult (request_id input)) retryResults w1))
     else
       (Inr \<lparr>out_request_id = request_id input,
             out_content_hash = generateContentHash (digest_sha256 env) (content input),
             overall_status =
               computeOverallStatus (findResultsByRequestId (request_id input) w) (targets input),
             per_target_results = findResultsByRequestId (request_id input) w\<rparr>, w))"
  unfolding publishPost_def p option.case Let_def parse_fields(1,2) [OF p]
    parse_content_hash [OF p] f parsed_force_flag [OF p]
  by (simp split: prod.splits)

subsection \<open>The examples, evaluated\<close>

lemma example_parse:
  "PublishInputSchema_parse (valid_url (x_down_env m)) example_input =
     Some (example_input\<lparr>content := example_content\<lparr>brandVoice := Some Professional\<rparr>,
             options := Some (PublishOptionsSchema_parse example_options)\<rparr>)"
  by (simp add: PublishInputSchema_parse_def NormalizedContentSchema_parse_def example_input_def
      example_content_def x_down_env_def list_or_empty_def)

lemma example_find:
  "findRequestById ''req-1'' recorded_world =
     Some \<lparr>content_json = example_content,
           content_hash = generateContentHash (\<lambda>s. s) example_content,
           targets_json = [X, Discord],
           options_json = Some (PublishOptionsSchema_parse example_options)\<rparr>"
  by (simp add: findRequestById_def recorded_world_def)

lemma example_results:
  "findResultsByRequestId ''req-1'' recorded_world =
     [failed_result X ''503 Service Unavailable'',
      \<lparr>target = Discord, status = Success, platform_id = Some ''9001'',
        platform_url = Some ''https://discord.com/channels/1/42/9001'',
        error_message = None, posted_at = Some ''2024-01-15T10:30:00.000Z''\<rparr>]"
  by (simp add: findResultsByRequestId_def recorded_world_def failed_result_def or_null_def
      or_null_columns_def)


subsection \<open>Requests that are already in the ledger\<close>

text \<open>The server answers 409 when the message includes \<^verbatim>\<open>content mismatch\<close>.\<close>

lemma content_mismatch_includes:
  "content_mismatch =
     ''Request ID '' @ ''content mismatch'' @ '': same request_id with different content''"
  by (simp add: content_mismatch_def)

text \<open>
  C2. When the request id is in the ledger and the fingerprint of the incoming content
  differs from the stored one, \<open>publishPost\<close> throws the content-mismatch error (the one
  error it throws besides a validation error), and the world is the world before the
  call: no row of the ledger is written and nothing is called.
\<close>

theorem publishPost_conflict:
  assumes "PublishInputSchema_parse (valid_url env) input = Some v"
    and "findRequestById (request_id input) w = Some existing"
    and "content_hash existing \<noteq> generateContentHash (digest_sha256 env) (content input)"
  shows "publishPost env input w = (Inl (Error content_mismatch), w)"
  unfolding publishPost_existing [OF assms(1,2)] using assms(3) by simp

theorem publishPost_conflict_witness:
  "publishPost (x_down_env []) (example_input\<lparr>content := example_content\<lparr>body := ''Bye''\<rparr>\<rparr>)
     recorded_world = (Inl (Error content_mismatch), recorded_world)"
proof -
  let ?input = "example_input\<lparr>content := example_content\<lparr>body := ''Bye''\<rparr>\<rparr>"
  have p: "PublishInputSchema_parse (valid_url (x_down_env [])) ?input =
     Some (?input\<lparr>content := example_content\<lparr>body := ''Bye'', brandVoice := Some Professional\<rparr>,
             options := Some (PublishOptionsSchema_parse example_options)\<rparr>)"
    by (simp add: PublishInputSchema_parse_def NormalizedContentSchema_parse_def example_input_def
      example_content_def x_down_env_def list_or_empty_def)
  have f: "findRequestById (request_id ?input) recorded_world =
     Some \<lparr>content_json = example_content,
           content_hash = generateContentHash (\<lambda>s. s) example_content,
           targets_json = [X, Discord],
           options_json = Some (PublishOptionsSchema_parse example_options)\<rparr>"
    using example_find by (simp add: example_input_def)
  have h: "content_hash \<lparr>content_json = example_content,
           content_hash = generateContentHash (\<lambda>s. s) example_content,
           targets_json = [X, Discord],
           options_json = Some (PublishOptionsSchema_parse example_options)\<rparr>
        \<noteq> generateContentHash (digest_sha256 (x_down_env [])) (content ?input)"
    by (simp add: generateContentHash_def contentString_def stableKeys stableContent_def
        example_content_def x_down_env_def QuoteJSONString_def quoteChar_def)
  from publishPost_conflict [OF p f h] show ?thesis .
qed


text \<open>
  C1. When the request id is in the ledger, the fingerprint matches and the caller has
  not asked for a retry of failed targets, \<open>publishPost\<close> returns the results the
  ledger holds for the request, as they are, and the world is the world before the call:
  no publisher is called and no row is written.
\<close>

theorem publishPost_idempotent_replay:
  assumes "PublishInputSchema_parse (valid_url env) input = Some v"
    and "findRequestById (request_id input) w = Some existing"
    and "content_hash existing = generateContentHash (digest_sha256 env) (content input)"
    and "\<not> requested_retry input"
  shows "publishPost env input w =
     (Inr \<lparr>out_request_id = request_id input,
           out_content_hash = content_hash existing,
           overall_status =
             computeOverallStatus (findResultsByRequestId (request_id input) w) (targets input),
           per_target_results = findResultsByRequestId (request_id input) w\<rparr>, w)"
  unfolding publishPost_existing [OF assms(1,2)] using assms(3,4) by simp

theorem publishPost_idempotent_replay_witness:
  "publishPost (x_down_env []) example_input recorded_world =
     (Inr \<lparr>out_request_id = ''req-1'',
           out_content_hash = generateContentHash (\<lambda>s. s) example_content,
           overall_status = OverallPartial,
           per_target_results =
             [failed_result X ''503 Service Unavailable'',
              \<lparr>target = Discord, status = Success, platform_id = Some ''9001'',
                platform_url = Some ''https://discord.com/channels/1/42/9001'',
                error_message = None, posted_at = Some ''2024-01-15T10:30:00.000Z''\<rparr>]\<rparr>,
      recorded_world)"
proof -
  have f: "findRequestById (request_id example_input) recorded_world =
     Some \<lparr>content_json = example_content,
           content_hash = generateContentHash (\<lambda>s. s) example_content,
           targets_json = [X, Discord],
           options_json = Some (PublishOptionsSchema_parse example_options)\<rparr>"
    using example_find by (simp add: example_input_def)
  have h: "content_hash \<lparr>content_json = example_content,
           content_hash = generateContentHash (\<lambda>s. s) example_content,
           targets_json = [X, Discord],
           options_json = Some (PublishOptionsSchema_parse example_options)\<rparr>
        = generateContentHash (digest_sha256 (x_down_env [])) (content example_input)"
    by (simp add: x_down_env_def example_input_def)
  have r: "\<not> requested_retry example_input"
    by (simp add: requested_retry_def example_input_def example_options_def)
  have i: "request_id example_input = ''req-1''" "targets example_input = [X, Discord]"
    by (simp_all add: example_input_def)
  from publishPost_idempotent_replay [OF example_parse f h r] show ?thesis
    unfolding i example_results
    by (simp add: computeOverallStatus_def failed_result_def)
qed

subsection \<open>The overall status\<close>







text \<open>
  The results of \<open>publishToTargets\<close>, one for each target, are results of the declared
  targets.
\<close>

lemma succeeded_declared:
  assumes "map target results = ts"
  shows "succeeded results \<subseteq># mset ts"
proof -
  have "mset (filter (\<lambda>r. status r = Success) results) \<subseteq># mset results"
    by simp
  then have "image_mset target (mset (filter (\<lambda>r. status r = Success) results))
      \<subseteq># image_mset target (mset results)"
    by (rule image_mset_subseteq_mono)
  then show ?thesis
    unfolding succeeded_def assms [symmetric] by simp
qed










subsection \<open>Publishing to the targets\<close>

lemma invoked_append: "invoked (xs @ ys) = invoked xs @ invoked ys"
  by (induction xs rule: invoked.induct) simp_all

lemma obs_emit: "obs (emit e w) = (ledger w, invoked (trace w) @ invoked [e])"
  by (simp add: obs_def emit_def ledger_def invoked_append)

lemma obs_emit_quiet: "invoked [e] = [] \<Longrightarrow> obs (emit e w) = obs w"
  by (simp add: obs_def emit_def ledger_def invoked_append)

lemma obs_discord_ready: "obs (w\<lparr>discord_ready := b\<rparr>) = obs w"
  by (simp add: obs_def ledger_def)

lemma retry_loop_preserves:
  "\<forall>w. f (snd (fn w)) = f w \<Longrightarrow>
   \<forall>e w. invoked [e] = [] \<longrightarrow> f (emit e w) = f w \<Longrightarrow>
   f (snd (retry_loop fn config ctx attempt delay lastError w)) = f w"
proof (induction fn config ctx attempt delay lastError w rule: retry_loop.induct)
  case (1 fn config ctx attempt delay lastError w)
  note quiet = "1.prems"(1) [rule_format]
  note em = "1.prems"(2) [rule_format]
  show ?case
  proof (cases "attempt \<le> maxAttempts config")
    case False
    then show ?thesis
      by (subst retry_loop_unfold) simp
  next
    case le: True
    obtain r w1 where fw: "fn (emit (LogAttempt attempt ctx) w) = (r, w1)"
      by (cases "fn (emit (LogAttempt attempt ctx) w)")
    have w1: "f w1 = f w"
    proof -
      have "f w1 = f (emit (LogAttempt attempt ctx) w)"
        using quiet [of "emit (LogAttempt attempt ctx) w"] fw by simp
      then show ?thesis by (simp add: em)
    qed
    show ?thesis
    proof (cases r)
      case (Inr v)
      with le fw w1 show ?thesis
        by (subst retry_loop_unfold) simp
    next
      case (Inl e)
      show ?thesis
      proof (cases "attempt = maxAttempts config")
        case True
        with le fw w1 Inl show ?thesis
          by (subst retry_loop_unfold) (simp add: em)
      next
        case ne: False
        let ?d = "min (delay * backoffMultiplier config) (maxDelayMs config)"
        let ?w = "emit (Sleep delay) (emit (LogRetrying attempt ctx e delay) w1)"
        have unf: "retry_loop fn config ctx attempt delay lastError w =
               retry_loop fn config ctx (attempt + 1) ?d (Some e) ?w"
          using le fw Inl ne by (subst retry_loop_unfold) simp
        have "f (snd (retry_loop fn config ctx (attempt + 1) ?d (Some e) ?w)) = f ?w"
          by (rule "1.IH" [OF le fw [symmetric] Inl ne "1.prems"])
        also have "f ?w = f w" by (simp add: em w1)
        finally show ?thesis unfolding unf .
      qed
    qed
  qed
qed

lemma retryWithBackoff_obs:
  assumes "\<And>w. obs (snd (fn w)) = obs w"
  shows "obs (snd (retryWithBackoff fn config ctx w)) = obs w"
  unfolding retryWithBackoff_def
  by (rule retry_loop_preserves) (simp_all add: assms obs_emit_quiet)

lemma xClientOperation_obs: "obs (snd (xClientOperation env draft w)) = obs w"
  by (simp add: xClientOperation_def obs_emit_quiet split: sum.splits prod.splits)

lemma discordClientOperation_obs: "obs (snd (discordClientOperation env ch e w)) = obs w"
  by (simp add: discordClientOperation_def obs_emit_quiet split: sum.splits prod.splits)

lemma ensureClient_obs: "obs (snd (ensureClient env w)) = obs w"
  by (simp add: ensureClient_def obs_emit_quiet obs_discord_ready split: sum.splits)

lemma XPublisher_publish_obs:
  "obs (snd (XPublisher_publish env draft dry w)) = (ledger w, invoked (trace w) @ [X])"
  by (simp add: XPublisher_publish_def Let_def retryWithBackoff_obs xClientOperation_obs obs_emit)

lemma DiscordPublisher_publish_obs:
  "obs (snd (DiscordPublisher_publish env ch e dry w)) = (ledger w, invoked (trace w) @ [Discord])"
proof (cases dry)
  case True
  then show ?thesis by (simp add: DiscordPublisher_publish_def Let_def obs_emit)
next
  case False
  let ?w0 = "emit (PublisherInvoked Discord dry) w"
  obtain r w1 where ec: "ensureClient env ?w0 = (r, w1)" by (cases "ensureClient env ?w0")
  have w1: "obs w1 = (ledger w, invoked (trace w) @ [Discord])"
    using ensureClient_obs [of env ?w0] ec by (simp add: obs_emit)
  show ?thesis
    using False ec w1
    by (cases r) (simp_all add: DiscordPublisher_publish_def Let_def retryWithBackoff_obs
        discordClientOperation_obs)
qed


text \<open>The result of one target, by the outcome of its publisher.\<close>

lemma publishTarget_X_failed:
  "XPublisher_publish env (x_draft drafts) (dry_run opts = Some True) w = (Inl e, w1) \<Longrightarrow>
   publishTarget env opts drafts X w = (failed_result X e, w1)"
  by (simp add: publishTarget_def)

lemma publishTarget_X_success:
  "XPublisher_publish env (x_draft drafts) (dry_run opts = Some True) w = (Inr result, w1) \<Longrightarrow>
   publishTarget env opts drafts X w =
     (\<lparr>target = X, status = Success, platform_id = nth_opt (platform_ids result) 0,
       platform_url = nth_opt (platform_urls result) 0, error_message = None,
       posted_at = Some (now_iso env (length (trace w1)))\<rparr>, emit ClockRead w1)"
  by (simp add: publishTarget_def)

lemma publishTarget_Discord_no_channel:
  "channelId env opts = [] \<Longrightarrow>
   publishTarget env opts drafts Discord w =
     (failed_result Discord ''Discord channel ID is required'', w)"
  by (simp add: publishTarget_def)

lemma publishTarget_Discord_failed:
  "channelId env opts \<noteq> [] \<Longrightarrow>
   DiscordPublisher_publish env (channelId env opts) (embed (discord_draft drafts))
     (dry_run opts = Some True) w = (Inl e, w1) \<Longrightarrow>
   publishTarget env opts drafts Discord w = (failed_result Discord e, w1)"
  by (simp add: publishTarget_def)

lemma publishTarget_Discord_success:
  "channelId env opts \<noteq> [] \<Longrightarrow>
   DiscordPublisher_publish env (channelId env opts) (embed (discord_draft drafts))
     (dry_run opts = Some True) w = (Inr (pid, purl), w1) \<Longrightarrow>
   publishTarget env opts drafts Discord w =
     (\<lparr>target = Discord, status = Success, platform_id = Some pid, platform_url = Some purl,
       error_message = None, posted_at = Some (now_iso env (length (trace w1)))\<rparr>,
      emit ClockRead w1)"
  by (simp add: publishTarget_def)

lemma publishTarget_obs:
  "obs (snd (publishTarget env opts drafts t w)) =
     (ledger w, invoked (trace w) @ (if t = X \<or> channelId env opts \<noteq> [] then [t] else []))"
proof (cases t)
  case X
  obtain r w1 where p: "XPublisher_publish env (x_draft drafts) (dry_run opts = Some True) w = (r, w1)"
    by (cases "XPublisher_publish env (x_draft drafts) (dry_run opts = Some True) w")
  have w1: "obs w1 = (ledger w, invoked (trace w) @ [X])"
    using XPublisher_publish_obs [of env "x_draft drafts" "dry_run opts = Some True" w] p by simp
  show ?thesis
    using X p w1 by (cases r) (simp_all add: publishTarget_def obs_emit_quiet)
next
  case Discord
  show ?thesis
  proof (cases "channelId env opts = []")
    case True
    with Discord show ?thesis by (simp add: publishTarget_def obs_def)
  next
    case False
    obtain r w1 where p: "DiscordPublisher_publish env (channelId env opts)
        (embed (discord_draft drafts)) (dry_run opts = Some True) w = (r, w1)"
      by (cases "DiscordPublisher_publish env (channelId env opts)
        (embed (discord_draft drafts)) (dry_run opts = Some True) w")
    have w1: "obs w1 = (ledger w, invoked (trace w) @ [Discord])"
      using DiscordPublisher_publish_obs [of env "channelId env opts"
          "embed (discord_draft drafts)" "dry_run opts = Some True" w] p by simp
    show ?thesis
      using Discord False p w1
      by (cases r) (simp_all add: publishTarget_def obs_emit_quiet split: prod.splits)
  qed
qed

lemma publishTarget_target: "target (fst (publishTarget env opts drafts t w)) = t"
  by (cases t)
     (simp_all add: publishTarget_def failed_result_def split: prod.splits sum.splits)

lemma publishTarget_shape: "result_shape (fst (publishTarget env opts drafts t w))"
  by (cases t)
     (simp_all add: publishTarget_def failed_result_def result_shape_def
        split: prod.splits sum.splits)

lemma publishLoop_append:
  "publishLoop env opts drafts (ts1 @ ts2) acc w =
     (case publishLoop env opts drafts ts1 acc w of
        (r1, w1) \<Rightarrow> publishLoop env opts drafts ts2 r1 w1)"
  by (induction ts1 arbitrary: acc w) (simp_all split: prod.splits)

lemma publishLoop_acc:
  "publishLoop env opts drafts ts acc w =
     (acc @ fst (publishLoop env opts drafts ts [] w), snd (publishLoop env opts drafts ts [] w))"
proof (induction ts arbitrary: acc w)
  case Nil
  then show ?case by simp
next
  case (Cons t ts)
  obtain r w1 where p: "publishTarget env opts drafts t w = (r, w1)"
    by (cases "publishTarget env opts drafts t w")
  show ?case
    using Cons [of "acc @ [r]" w1] Cons [of "[r]" w1] by (simp add: p)
qed

lemma publishLoop_Cons:
  "publishLoop env opts drafts (t # ts) [] w =
     (fst (publishTarget env opts drafts t w)
        # fst (publishLoop env opts drafts ts [] (snd (publishTarget env opts drafts t w))),
      snd (publishLoop env opts drafts ts [] (snd (publishTarget env opts drafts t w))))"
proof -
  obtain r w1 where p: "publishTarget env opts drafts t w = (r, w1)"
    by (cases "publishTarget env opts drafts t w")
  show ?thesis
    using publishLoop_acc [of env opts drafts ts "[r]" w1] by (simp add: p)
qed

lemma publishLoop_targets:
  "map target (fst (publishLoop env opts drafts ts [] w)) = ts"
  by (induction ts arbitrary: w) (simp_all add: publishLoop_Cons publishTarget_target del: publishLoop.simps(2))

lemma publishLoop_shape:
  "list_all result_shape (fst (publishLoop env opts drafts ts [] w))"
  by (induction ts arbitrary: w) (simp_all add: publishLoop_Cons publishTarget_shape del: publishLoop.simps(2))

lemma publishLoop_obs:
  "obs (snd (publishLoop env opts drafts ts [] w)) =
     (ledger w, invoked (trace w) @ filter (\<lambda>t. t = X \<or> channelId env opts \<noteq> []) ts)"
proof (induction ts arbitrary: w)
  case Nil
  then show ?case by (simp add: obs_def)
next
  case (Cons t ts)
  let ?w1 = "snd (publishTarget env opts drafts t w)"
  have o: "obs ?w1 =
     (ledger w, invoked (trace w) @ (if t = X \<or> channelId env opts \<noteq> [] then [t] else []))"
    by (rule publishTarget_obs)
  then have l: "ledger ?w1 = ledger w"
    and i: "invoked (trace ?w1) =
       invoked (trace w) @ (if t = X \<or> channelId env opts \<noteq> [] then [t] else [])"
    by (simp_all add: obs_def)
  show ?case
    unfolding publishLoop_Cons snd_conv Cons [of ?w1] l i by simp
qed

lemma publishLoop_nth:
  assumes "i < length ts"
  shows "fst (publishLoop env opts drafts ts [] w) ! i =
     fst (publishTarget env opts drafts (ts ! i)
            (snd (publishLoop env opts drafts (take i ts) [] w)))"
proof -
  let ?pre = "publishLoop env opts drafts (take i ts) [] w"
  have ts: "ts = take i ts @ (ts ! i) # drop (Suc i) ts"
    using assms by (simp add: id_take_nth_drop)
  have len: "length (fst ?pre) = i"
    using publishLoop_targets [of env opts drafts "take i ts" w] assms
    by (metis length_map length_take min.absorb2 less_imp_le)
  have "publishLoop env opts drafts ts [] w =
      publishLoop env opts drafts ((ts ! i) # drop (Suc i) ts) (fst ?pre) (snd ?pre)"
    by (subst ts, subst publishLoop_append) (simp add: case_prod_beta)
  also have "\<dots> = (fst ?pre @ fst (publishLoop env opts drafts ((ts ! i) # drop (Suc i) ts) []
        (snd ?pre)), snd (publishLoop env opts drafts ((ts ! i) # drop (Suc i) ts) [] (snd ?pre)))"
    by (rule publishLoop_acc)
  finally have "fst (publishLoop env opts drafts ts [] w) ! i =
      (fst ?pre @ fst (publishLoop env opts drafts ((ts ! i) # drop (Suc i) ts) [] (snd ?pre))) ! i"
    by simp
  also have "\<dots> = fst (publishLoop env opts drafts ((ts ! i) # drop (Suc i) ts) [] (snd ?pre)) ! 0"
    using len by (simp add: nth_append)
  also have "\<dots> = fst (publishTarget env opts drafts (ts ! i) (snd ?pre))"
    by (simp add: publishLoop_Cons del: publishLoop.simps(2))
  finally show ?thesis .
qed


lemma publishToTargets_run:
  "map target (fst (publishToTargets env c ts opts drafts0 w)) = ts
   \<and> list_all result_shape (fst (publishToTargets env c ts opts drafts0 w))
   \<and> (\<forall>i<length ts.
         fst (publishToTargets env c ts opts drafts0 w) ! i =
           fst (publishTarget env (PublishOptionsSchema_parse opts)
                  (case drafts0 of
                     Some d \<Rightarrow> d
                   | None \<Rightarrow> compose_drafts env c (useUtm (PublishOptionsSchema_parse opts) = Some True))
                  (ts ! i)
                  (snd (publishToTargets env c (take i ts) opts drafts0 w))))
   \<and> invoked (trace (snd (publishToTargets env c ts opts drafts0 w))) =
       invoked (trace w)
         @ filter (\<lambda>t. t = X \<or> channelId env (PublishOptionsSchema_parse opts) \<noteq> []) ts
   \<and> ledger (snd (publishToTargets env c ts opts drafts0 w)) = ledger w"
proof -
  let ?opts = "PublishOptionsSchema_parse opts"
  let ?drafts = "case drafts0 of Some d \<Rightarrow> d
                   | None \<Rightarrow> compose_drafts env c (useUtm ?opts = Some True)"
  have unf: "publishToTargets env c ts' opts drafts0 w = publishLoop env ?opts ?drafts ts' [] w"
    for ts'
    by (simp add: publishToTargets_def Let_def)
  have o: "obs (snd (publishLoop env ?opts ?drafts ts [] w)) =
     (ledger w, invoked (trace w) @ filter (\<lambda>t. t = X \<or> channelId env ?opts \<noteq> []) ts)"
    by (rule publishLoop_obs)
  show ?thesis
    unfolding unf
    using publishLoop_targets [of env ?opts ?drafts ts w]
      publishLoop_shape [of env ?opts ?drafts ts w]
      publishLoop_nth [of _ ts env ?opts ?drafts w] o
    by (simp add: obs_def)
qed











text \<open>A complete result is stored in the ledger, and read from it, as it is.\<close>

lemma complete_result_stored:
  assumes "result_shape r" and "complete_result r"
  shows "or_null_columns r = r"
  using assms
  by (cases "status r")
     (auto simp: result_shape_def complete_result_def present_def or_null_columns_def or_null_def)











subsection \<open>Retrying the failed targets\<close>

lemma or_null_columns_simps:
  "target (or_null_columns r) = target r" "status (or_null_columns r) = status r"
  by (simp_all add: or_null_columns_def)

lemma upsert_row_other:
  "(k, r0) \<in> set rows \<Longrightarrow> \<not> (k = rid \<and> target r0 = target r) \<Longrightarrow>
   (k, r0) \<in> set (upsert_row rid r rows)"
  by (induction rows) auto

lemma upsert_row_map_key:
  "map (\<lambda>row. (fst row, target (snd row))) (upsert_row rid r rows) =
     (if (rid, target r) \<in> set (map (\<lambda>row. (fst row, target (snd row))) rows)
      then map (\<lambda>row. (fst row, target (snd row))) rows
      else map (\<lambda>row. (fst row, target (snd row))) rows @ [(rid, target r)])"
proof (induction rows)
  case Nil
  then show ?case by simp
next
  case (Cons row rows)
  obtain a b where row: "row = (a, b)" by (cases row)
  show ?case
  proof (cases "a = rid \<and> target b = target r")
    case True
    then show ?thesis by (simp add: row)
  next
    case False
    then show ?thesis using Cons by (auto simp: row)
  qed
qed

lemma fold_insertPostResult_fields:
  "post_requests (fold (insertPostResult rid) rs w) = post_requests w"
  "post_drafts (fold (insertPostResult rid) rs w) = post_drafts w"
  "trace (fold (insertPostResult rid) rs w) = trace w"
  by (induction rs arbitrary: w) (simp_all add: insertPostResult_def)

lemma fold_insertPostResult_other:
  "(k, r0) \<in> set (post_results w) \<Longrightarrow>
   \<forall>r\<in>set rs. \<not> (k = rid \<and> target r0 = target r) \<Longrightarrow>
   (k, r0) \<in> set (post_results (fold (insertPostResult rid) rs w))"
proof (induction rs arbitrary: w)
  case Nil
  then show ?case by simp
next
  case (Cons r rs)
  have "(k, r0) \<in> set (post_results (insertPostResult rid r w))"
    using Cons.prems
    by (simp add: insertPostResult_def upsert_row_other or_null_columns_simps)
  then show ?case
    using Cons.IH [of "insertPostResult rid r w"] Cons.prems(2) by simp
qed

lemma unique_key_status:
  assumes u: "distinct (map (\<lambda>row. (fst row, target (snd row))) rows)"
    and a: "(rid, r0) \<in> set rows" and b: "(rid, r1) \<in> set rows"
    and t: "target r0 = target r1"
  shows "r0 = r1"
proof -
  from u have "inj_on (\<lambda>row. (fst row, target (snd row))) (set rows)"
    by (simp add: distinct_map)
  from inj_onD [OF this _ a b] t show ?thesis by simp
qed

lemma successful_not_failed_target:
  assumes u: "distinct (map (\<lambda>row. (fst row, target (snd row))) (post_results w))"
    and a: "(rid, r0) \<in> set (post_results w)" and s: "status r0 \<noteq> Failed"
  shows "target r0 \<notin> set (findFailedTargets rid w)"
proof
  assume "target r0 \<in> set (findFailedTargets rid w)"
  then obtain row where row: "row \<in> set (post_results w)" "fst row = rid"
      "status (snd row) = Failed" "target (snd row) = target r0"
    by (auto simp: findFailedTargets_def)
  from row(1,2) have "(rid, snd row) \<in> set (post_results w)" by (metis prod.collapse)
  from unique_key_status [OF u a this] row(4) have "r0 = snd row" by simp
  with row(3) s show False by simp
qed

lemma findResults_mem:
  "r \<in> set (findResultsByRequestId rid w) \<longleftrightarrow>
     (\<exists>r0. (rid, r0) \<in> set (post_results w) \<and> r = or_null_columns r0)"
  by (force simp: findResultsByRequestId_def)


lemma channelId_parse: "channelId env (PublishOptionsSchema_parse opts) = channelId env opts"
  by (simp add: channelId_def PublishOptionsSchema_parse_def)

lemma PublishOptionsSchema_parse_idem:
  "PublishOptionsSchema_parse (PublishOptionsSchema_parse opts) = PublishOptionsSchema_parse opts"
  by (simp add: PublishOptionsSchema_parse_def)

lemma parsed_options:
  assumes "PublishInputSchema_parse u input = Some v"
  shows "PublishOptionsSchema_parse (case options v of None \<Rightarrow> no_options | Some x \<Rightarrow> x)
       = PublishOptionsSchema_parse (case options input of None \<Rightarrow> no_options | Some x \<Rightarrow> x)"
  unfolding parse_fields(3) [OF assms]
  by (cases "options input") (simp_all add: PublishOptionsSchema_parse_idem)

lemma retry_parse:
  "PublishInputSchema_parse (valid_url example_env) retry_input =
     Some (retry_input\<lparr>content := example_content\<lparr>brandVoice := Some Professional\<rparr>,
             options := Some (PublishOptionsSchema_parse
               (example_options\<lparr>force_retry_failed_targets := Some True\<rparr>))\<rparr>)"
  by (simp add: PublishInputSchema_parse_def NormalizedContentSchema_parse_def example_input_def
      example_content_def x_down_env_def example_env_def list_or_empty_def retry_input_def)

lemma retry_find:
  "findRequestById (request_id retry_input) recorded_world =
     Some \<lparr>content_json = example_content,
           content_hash = generateContentHash (\<lambda>s. s) example_content,
           targets_json = [X, Discord],
           options_json = Some (PublishOptionsSchema_parse example_options)\<rparr>"
  using example_find by (simp add: retry_input_def example_input_def)

lemma retry_failed: "findFailedTargets (request_id retry_input) recorded_world = [X]"
  by (simp add: findFailedTargets_def recorded_world_def failed_result_def retry_input_def
      example_input_def)

lemma retry_run:
  "fst (publishPost example_env retry_input recorded_world) =
     Inr \<lparr>out_request_id = ''req-1'',
          out_content_hash = generateContentHash (\<lambda>s. s) example_content,
          overall_status = OverallSuccess,
          per_target_results =
            [\<lparr>target = X, status = Success, platform_id = Some ''1001'',
              platform_url = Some ''https://twitter.com/i/web/status/1001'',
              error_message = None, posted_at = Some ''2024-01-15T10:30:00.000Z''\<rparr>,
             \<lparr>target = Discord, status = Success, platform_id = Some ''9001'',
              platform_url = Some ''https://discord.com/channels/1/42/9001'',
              error_message = None, posted_at = Some ''2024-01-15T10:30:00.000Z''\<rparr>]\<rparr>"
  unfolding publishPost_existing [OF retry_parse retry_find] retry_failed
  by (simp add: retry_input_def example_input_def recorded_world_def requested_retry_def
      publishToTargets_def PublishOptionsSchema_parse_def example_options_def
      publishTarget_def XPublisher_publish_def emit_def
      example_env_def x_down_env_def example_drafts_def
      sortedInPlace_def example_content_def computeOverallStatus_def
      nth_opt_def retryWithBackoff_def retry_loop_unfold config_retry_def
      xClientOperation_def failed_result_def findResultsByRequestId_def
      insertPostResult_def or_null_columns_def or_null_def)

text \<open>
  An upsert on a key that is in the table replaces the row of that key, where it stands.
\<close>

lemma or_null_columns_idem: "or_null_columns (or_null_columns r) = or_null_columns r"
  by (simp add: or_null_columns_def or_null_def split: option.splits)

lemma find_target_None:
  "t \<notin> set (map target rs) \<Longrightarrow> find (\<lambda>x. target x = t) rs = None"
  by (induction rs) auto

lemma find_target_Some:
  "t \<in> set (map target rs) \<Longrightarrow> \<exists>x. find (\<lambda>x. target x = t) rs = Some x"
  by (induction rs) auto

lemma upsert_row_replace:
  assumes "distinct (map (\<lambda>row. (fst row, target (snd row))) rows)"
    and "(rid, target r) \<in> set (map (\<lambda>row. (fst row, target (snd row))) rows)"
  shows "upsert_row rid r rows =
     map (\<lambda>row. if fst row = rid \<and> target (snd row) = target r then (rid, r) else row) rows"
  using assms
proof (induction rows)
  case Nil
  then show ?case by simp
next
  case (Cons row rows)
  obtain a b where row: "row = (a, b)" by (cases row)
  show ?case
  proof (cases "a = rid \<and> target b = target r")
    case True
    with Cons.prems(1) have "(rid, target r) \<notin> set (map (\<lambda>row. (fst row, target (snd row))) rows)"
      by (simp add: row)
    then have "\<forall>x\<in>set rows. \<not> (fst x = rid \<and> target (snd x) = target r)"
      by force
    then have "(if fst x = rid \<and> target (snd x) = target r then (rid, r) else x) = x"
      if "x \<in> set rows" for x
      using that by auto
    then have "map (\<lambda>row. if fst row = rid \<and> target (snd row) = target r then (rid, r) else row) rows
        = rows"
      by (rule map_idI)
    with True show ?thesis by (simp add: row)
  next
    case False
    with Cons.prems(2) have "(rid, target r) \<in> set (map (\<lambda>row. (fst row, target (snd row))) rows)"
      by (auto simp: row)
    moreover from Cons.prems(1) have "distinct (map (\<lambda>row. (fst row, target (snd row))) rows)"
      by simp
    ultimately have ih: "upsert_row rid r rows =
        map (\<lambda>row. if fst row = rid \<and> target (snd row) = target r then (rid, r) else row) rows"
      by (rule Cons.IH [rotated])
    have step: "upsert_row rid r (row # rows) = row # upsert_row rid r rows"
      using False by (auto simp: row)
    have same: "(if fst row = rid \<and> target (snd row) = target r then (rid, r) else row) = row"
      using False by (auto simp: row)
    show ?thesis
      unfolding step ih list.map same ..
  qed
qed

lemma fold_insertPostResult_replace:
  assumes "distinct (map (\<lambda>row. (fst row, target (snd row))) (post_results w))"
    and "distinct (map target rs)"
    and "\<forall>r\<in>set rs. (rid, target r) \<in> set (map (\<lambda>row. (fst row, target (snd row))) (post_results w))"
  shows "post_results (fold (insertPostResult rid) rs w) =
     map (\<lambda>row. if fst row = rid
                 then (case find (\<lambda>x. target x = target (snd row)) rs of
                         Some x \<Rightarrow> (rid, or_null_columns x)
                       | None \<Rightarrow> row)
                 else row) (post_results w)"
  using assms
proof (induction rs arbitrary: w)
  case Nil
  then show ?case by (simp add: map_idI)
next
  case (Cons r rs)
  let ?key = "\<lambda>row. (fst row, target (snd row :: TargetResult))"
  let ?f = "\<lambda>row. if fst row = rid \<and> target (snd row) = target r
                   then (rid, or_null_columns r) else row"
  let ?g = "\<lambda>rs row. if fst row = rid
                 then (case find (\<lambda>x. target x = target (snd row)) rs of
                         Some x \<Rightarrow> (rid, or_null_columns x)
                       | None \<Rightarrow> row)
                 else row"
  let ?w1 = "insertPostResult rid r w"
  have mem: "(rid, target r) \<in> set (map ?key (post_results w))"
    using Cons.prems(3) by simp
  have w1: "post_results ?w1 = map ?f (post_results w)"
    using upsert_row_replace [OF Cons.prems(1), of rid "or_null_columns r"] mem
    by (simp add: insertPostResult_def or_null_columns_simps)
  have keys: "map ?key (post_results ?w1) = map ?key (post_results w)"
    using upsert_row_map_key [of rid "or_null_columns r" "post_results w"] mem
    by (simp add: insertPostResult_def or_null_columns_simps)
  have "post_results (fold (insertPostResult rid) rs ?w1) = map (?g rs) (post_results ?w1)"
  proof (rule Cons.IH)
    show "distinct (map ?key (post_results ?w1))"
      unfolding keys by (rule Cons.prems(1))
    show "distinct (map target rs)"
      using Cons.prems(2) by simp
    show "\<forall>r\<in>set rs. (rid, target r) \<in> set (map ?key (post_results ?w1))"
      unfolding keys using Cons.prems(3) by simp
  qed
  also have "\<dots> = map (\<lambda>row. ?g rs (?f row)) (post_results w)"
    unfolding w1 by (simp add: comp_def)
  also have "\<dots> = map (?g (r # rs)) (post_results w)"
  proof (rule map_cong [OF refl])
    fix row assume "row \<in> set (post_results w)"
    have fresh: "find (\<lambda>x. target x = target r) rs = None"
      using Cons.prems(2) by (intro find_target_None) simp
    show "?g rs (?f row) = ?g (r # rs) row"
    proof (cases "fst row = rid \<and> target (snd row) = target r")
      case True
      then show ?thesis by (simp add: or_null_columns_simps fresh)
    next
      case False
      then show ?thesis by auto
    qed
  qed
  finally show ?case by simp
qed

lemma distinct_failed_targets:
  assumes "distinct (map (\<lambda>row. (fst row, target (snd row))) (post_results w))"
  shows "distinct (findFailedTargets rid w)"
proof -
  let ?rows = "filter (\<lambda>row. fst row = rid \<and> status (snd row) = Failed) (post_results w)"
  from assms have "distinct (map (\<lambda>row. (fst row, target (snd row))) ?rows)"
    by (rule distinct_map_filter)
  moreover have "map (\<lambda>row. (fst row, target (snd row))) ?rows =
      map (\<lambda>t. (rid, t)) (map (\<lambda>row. target (snd row)) ?rows)"
    by (simp add: comp_def cong: map_cong)
  ultimately have "distinct (map (\<lambda>t. (rid, t)) (map (\<lambda>row. target (snd row)) ?rows))"
    by simp
  then have "distinct (map (\<lambda>row. target (snd row)) ?rows)"
    by (auto simp: distinct_map inj_on_def)
  then show ?thesis by (simp add: findFailedTargets_def)
qed

lemma failed_target_key:
  assumes "t \<in> set (findFailedTargets rid w)"
  shows "(rid, t) \<in> set (map (\<lambda>row. (fst row, target (snd row))) (post_results w))"
  using assms by (force simp: findFailedTargets_def)

lemma failed_target_iff:
  assumes u: "distinct (map (\<lambda>row. (fst row, target (snd row))) (post_results w))"
    and a: "(rid, r0) \<in> set (post_results w)"
  shows "target r0 \<in> set (findFailedTargets rid w) \<longleftrightarrow> status r0 = Failed"
proof
  assume "target r0 \<in> set (findFailedTargets rid w)"
  then show "status r0 = Failed"
    using successful_not_failed_target [OF u a] by blast
next
  assume "status r0 = Failed"
  with a show "target r0 \<in> set (findFailedTargets rid w)"
    by (force simp: findFailedTargets_def)
qed

text \<open>
  The results of a request after the results of a retry of its failed targets have been
  written, and the rows of the other requests.
\<close>

lemma findResults_after_retry:
  assumes u: "distinct (map (\<lambda>row. (fst row, target (snd row))) (post_results w))"
    and tg: "map target rs = findFailedTargets rid w"
    and pr: "post_results w1 = post_results w"
  shows "map Some (findResultsByRequestId rid (fold (insertPostResult rid) rs w1)) =
           map (retried rs) (findResultsByRequestId rid w)"
    and "filter (\<lambda>row. fst row \<noteq> rid) (post_results (fold (insertPostResult rid) rs w1)) =
           filter (\<lambda>row. fst row \<noteq> rid) (post_results w)"
proof -
  let ?g = "\<lambda>row. if fst row = rid
                 then (case find (\<lambda>x. target x = target (snd row)) rs of
                         Some x \<Rightarrow> (rid, or_null_columns x)
                       | None \<Rightarrow> row)
                 else row"
  have d: "distinct (map target rs)"
    unfolding tg by (rule distinct_failed_targets [OF u])
  have k: "\<forall>r\<in>set rs. (rid, target r) \<in> set (map (\<lambda>row. (fst row, target (snd row))) (post_results w1))"
  proof
    fix r assume "r \<in> set rs"
    then have "target r \<in> set (map target rs)" by simp
    then show "(rid, target r) \<in> set (map (\<lambda>row. (fst row, target (snd row))) (post_results w1))"
      unfolding tg pr by (rule failed_target_key)
  qed
  have rows: "post_results (fold (insertPostResult rid) rs w1) = map ?g (post_results w)"
    using fold_insertPostResult_replace [OF u [folded pr] d k] unfolding pr .
  have fst_g: "fst (?g row) = fst row" for row
    by (simp split: option.splits)
  have sel: "filter (\<lambda>row. fst row = rid) (map ?g (post_results w)) =
      map ?g (filter (\<lambda>row. fst row = rid) (post_results w))"
    unfolding filter_map comp_def fst_g ..
  have "map Some (findResultsByRequestId rid (fold (insertPostResult rid) rs w1)) =
      map (\<lambda>row. Some (or_null_columns (snd (?g row))))
        (filter (\<lambda>row. fst row = rid) (post_results w))"
    unfolding findResultsByRequestId_def rows sel by (simp add: comp_def)
  also have "\<dots> = map (\<lambda>row. retried rs (or_null_columns (snd row)))
        (filter (\<lambda>row. fst row = rid) (post_results w))"
  proof (rule map_cong [OF refl])
    fix row assume "row \<in> set (filter (\<lambda>row. fst row = rid) (post_results w))"
    then have mem: "(rid, snd row) \<in> set (post_results w)" and rid: "fst row = rid"
      by auto
    note iff = failed_target_iff [OF u mem, folded tg]
    show "Some (or_null_columns (snd (?g row))) = retried rs (or_null_columns (snd row))"
    proof (cases "status (snd row) = Failed")
      case True
      with iff have "target (snd row) \<in> set (map target rs)" by simp
      then obtain x where x: "find (\<lambda>x. target x = target (snd row)) rs = Some x"
        using find_target_Some by blast
      with True rid show ?thesis
        by (simp add: retried_def or_null_columns_simps or_null_columns_idem)
    next
      case False
      with iff have "target (snd row) \<notin> set (map target rs)" by simp
      then have "find (\<lambda>x. target x = target (snd row)) rs = None"
        by (rule find_target_None)
      with False rid show ?thesis
        by (simp add: retried_def or_null_columns_simps)
    qed
  qed
  also have "\<dots> = map (retried rs) (findResultsByRequestId rid w)"
    by (simp add: findResultsByRequestId_def comp_def)
  finally show "map Some (findResultsByRequestId rid (fold (insertPostResult rid) rs w1)) =
           map (retried rs) (findResultsByRequestId rid w)" .
  have "filter (\<lambda>row. fst row \<noteq> rid) (map ?g (post_results w)) =
      map ?g (filter (\<lambda>row. fst row \<noteq> rid) (post_results w))"
    unfolding filter_map comp_def fst_g ..
  also have "\<dots> = filter (\<lambda>row. fst row \<noteq> rid) (post_results w)"
    by (rule map_idI) simp
  finally show "filter (\<lambda>row. fst row \<noteq> rid) (post_results (fold (insertPostResult rid) rs w1)) =
           filter (\<lambda>row. fst row \<noteq> rid) (post_results w)"
    unfolding rows .
qed

lemma computeOverallStatus_explicit:
  "computeOverallStatus results ts =
     (if \<not> (\<exists>r\<in>set results. status r = Success) then OverallFailed
      else if length (filter (\<lambda>r. status r = Success) results) = length ts then OverallSuccess
      else OverallPartial)"
  by (simp add: computeOverallStatus_def Let_def filter_empty_conv)

lemma retried_success:
  assumes "retried rs r = Some r'"
    and "list_all (\<lambda>x. status x = Success) rs" and "status r \<noteq> Skipped"
  shows "status r' = Success"
proof (cases "status r = Failed")
  case True
  with assms(1) obtain x where x: "find (\<lambda>x. target x = target r) rs = Some x"
    and r': "r' = or_null_columns x"
    by (auto simp: retried_def)
  from x have "x \<in> set rs"
    by (auto simp: find_Some_iff)
  with assms(2) have "status x = Success"
    by (simp add: list_all_iff)
  then show ?thesis by (simp add: r' or_null_columns_simps)
next
  case False
  with assms(1) have "r' = r" by (simp add: retried_def)
  with False assms(3) show ?thesis by (cases "status r") simp_all
qed

lemma retried_all_success:
  assumes "map Some new = map (retried rs) old"
    and "list_all (\<lambda>x. status x = Success) rs" and "list_all (\<lambda>r. status r \<noteq> Skipped) old"
  shows "list_all (\<lambda>r. status r = Success) new"
proof -
  from assms(1) have len: "length new = length old"
    by (metis length_map)
  have "status (new ! i) = Success" if i: "i < length new" for i
  proof -
    from assms(1) have "map Some new ! i = map (retried rs) old ! i" by simp
    with i len have a: "retried rs (old ! i) = Some (new ! i)" by simp
    from assms(3) i len have b: "status (old ! i) \<noteq> Skipped"
      by (simp add: list_all_length)
    show ?thesis by (rule retried_success [OF a assms(2) b])
  qed
  then show ?thesis by (simp add: list_all_length)
qed

text \<open>
  C3. When the request id is in the ledger, the fingerprint matches and the caller asks
  for a retry of the failed targets, \<open>publishPost\<close> calls the publishers of the
  targets recorded as failed and of no other (Discord's only if a channel id is known).
  The results it returns are those now in the ledger: the recorded results, in their
  order, every failure replaced by the result of the retry of its target and every
  other result as it was. The overall status is computed from all of them: \<open>failed\<close>
  when none is a success, \<open>success\<close> when there are as many successes as declared
  targets, \<open>partial\<close> otherwise; so it is \<open>success\<close> when every retry succeeds and
  the other targets had succeeded. The rest of the ledger is as it was. When no target is
  recorded as failed, nothing is called or written and the recorded results are
  returned. The key of \<open>post_results\<close>, request id and target, is unique.
\<close>

theorem publishPost_retry_failed_only:
  assumes p: "PublishInputSchema_parse (valid_url env) input = Some v"
    and f: "findRequestById (request_id input) w = Some existing"
    and h: "content_hash existing = generateContentHash (digest_sha256 env) (content input)"
    and r: "requested_retry input"
    and u: "distinct (map (\<lambda>row. (fst row, target (snd row))) (post_results w))"
  shows "\<exists>out w'. publishPost env input w = (Inr out, w')
     \<and> per_target_results out = findResultsByRequestId (request_id input) w'
     \<and> map Some (per_target_results out) =
         map (retried (fst (publishToTargets env (sortedInPlace (content v))
                (findFailedTargets (request_id input) w)
                (PublishOptionsSchema_parse
                   (case options input of None \<Rightarrow> no_options | Some x \<Rightarrow> x))
                None w)))
           (findResultsByRequestId (request_id input) w)
     \<and> overall_status out =
         computeOverallStatus (findResultsByRequestId (request_id input) w') (targets input)
     \<and> overall_status out =
         (if \<not> (\<exists>r\<in>set (per_target_results out). status r = Success) then OverallFailed
          else if length (filter (\<lambda>r. status r = Success) (per_target_results out))
                    = length (targets input)
          then OverallSuccess else OverallPartial)
     \<and> (list_all (\<lambda>r. status r = Success)
           (fst (publishToTargets env (sortedInPlace (content v))
                (findFailedTargets (request_id input) w)
                (PublishOptionsSchema_parse
                   (case options input of None \<Rightarrow> no_options | Some x \<Rightarrow> x))
                None w))
         \<and> list_all (\<lambda>r. status r \<noteq> Skipped) (findResultsByRequestId (request_id input) w)
         \<and> length (findResultsByRequestId (request_id input) w) = length (targets input)
         \<longrightarrow> overall_status out = OverallSuccess)
     \<and> invoked (trace w') =
         invoked (trace w)
           @ filter (\<lambda>t. t = X \<or> channelId env
                 (case options input of None \<Rightarrow> no_options | Some x \<Rightarrow> x) \<noteq> [])
               (findFailedTargets (request_id input) w)
     \<and> (\<forall>r\<in>set (findResultsByRequestId (request_id input) w).
           status r \<noteq> Failed \<longrightarrow> r \<in> set (findResultsByRequestId (request_id input) w'))
     \<and> post_requests w' = post_requests w
     \<and> post_drafts w' = post_drafts w
     \<and> filter (\<lambda>row. fst row \<noteq> request_id input) (post_results w') =
         filter (\<lambda>row. fst row \<noteq> request_id input) (post_results w)
     \<and> (findFailedTargets (request_id input) w = [] \<longrightarrow>
           w' = w \<and> per_target_results out = findResultsByRequestId (request_id input) w)"
proof -
  let ?rid = "request_id input"
  let ?failed = "findFailedTargets ?rid w"
  let ?opts = "PublishOptionsSchema_parse (case options input of None \<Rightarrow> no_options | Some x \<Rightarrow> x)"
  let ?run = "publishToTargets env (sortedInPlace (content v)) ?failed ?opts None w"
  let ?w' = "fold (insertPostResult ?rid) (fst ?run) (snd ?run)"
  let ?old = "findResultsByRequestId ?rid w"
  let ?new = "findResultsByRequestId ?rid ?w'"
  let ?out = "\<lparr>out_request_id = ?rid,
             out_content_hash = generateContentHash (digest_sha256 env) (content input),
             overall_status = computeOverallStatus ?new (targets input),
             per_target_results = ?new\<rparr>"
  have none: "?w' = w" if "?failed = []"
    using that by (simp add: publishToTargets_def)
  have run: "publishPost env input w = (Inr ?out, ?w')"
  proof (cases "?failed = []")
    case True
    show ?thesis
      unfolding none [OF True] publishPost_existing [OF p f] using h True by simp
  next
    case False
    show ?thesis
      unfolding publishPost_existing [OF p f] parsed_options [OF p]
      using h r False by (simp add: case_prod_beta)
  qed
  note iso = publishToTargets_run [of env "sortedInPlace (content v)" ?failed ?opts None w]
  have tg: "map target (fst ?run) = ?failed" using iso by simp
  have inv: "invoked (trace ?w') = invoked (trace w)
       @ filter (\<lambda>t. t = X \<or> channelId env
                 (case options input of None \<Rightarrow> no_options | Some x \<Rightarrow> x) \<noteq> []) ?failed"
    using iso by (simp add: fold_insertPostResult_fields channelId_parse)
  have led: "ledger (snd ?run) = ledger w" using iso by simp
  then have pr: "post_results (snd ?run) = post_results w"
    and rq: "post_requests ?w' = post_requests w"
    and dr: "post_drafts ?w' = post_drafts w"
    by (simp_all add: ledger_def fold_insertPostResult_fields)
  note after = findResults_after_retry [OF u tg pr]
  have keep: "r \<in> set ?new" if mem: "r \<in> set ?old" and ok: "status r \<noteq> Failed" for r
  proof -
    from mem have "Some r \<in> set (map (retried (fst ?run)) ?old)"
      using ok by (force simp: retried_def)
    then have "Some r \<in> set (map Some ?new)"
      unfolding after(1) .
    then show ?thesis by auto
  qed
  have st: "computeOverallStatus ?new (targets input) =
         (if \<not> (\<exists>r\<in>set ?new. status r = Success) then OverallFailed
          else if length (filter (\<lambda>r. status r = Success) ?new) = length (targets input)
          then OverallSuccess else OverallPartial)"
    by (rule computeOverallStatus_explicit)
  have all: "computeOverallStatus ?new (targets input) = OverallSuccess"
    if a: "list_all (\<lambda>r. status r = Success) (fst ?run)"
      and b: "list_all (\<lambda>r. status r \<noteq> Skipped) ?old"
      and c: "length ?old = length (targets input)"
  proof -
    from after(1) a b have s: "list_all (\<lambda>r. status r = Success) ?new"
      by (rule retried_all_success)
    then have n: "filter (\<lambda>r. status r = Success) ?new = ?new"
      by (simp add: list_all_iff)
    from after(1) have "length ?new = length ?old"
      by (metis length_map)
    with c have len: "length ?new = length (targets input)" by simp
    with parse_fields(5) [OF p] have "?new \<noteq> []" by auto
    with s have "\<exists>r\<in>set ?new. status r = Success"
      by (cases ?new) simp_all
    then show ?thesis
      unfolding st n using len by simp
  qed
  have "publishPost env input w = (Inr ?out, ?w')
     \<and> per_target_results ?out = ?new
     \<and> map Some (per_target_results ?out) = map (retried (fst ?run)) ?old
     \<and> overall_status ?out = computeOverallStatus ?new (targets input)
     \<and> overall_status ?out =
         (if \<not> (\<exists>r\<in>set (per_target_results ?out). status r = Success) then OverallFailed
          else if length (filter (\<lambda>r. status r = Success) (per_target_results ?out))
                    = length (targets input)
          then OverallSuccess else OverallPartial)
     \<and> (list_all (\<lambda>r. status r = Success) (fst ?run)
         \<and> list_all (\<lambda>r. status r \<noteq> Skipped) ?old
         \<and> length ?old = length (targets input)
         \<longrightarrow> overall_status ?out = OverallSuccess)
     \<and> invoked (trace ?w') =
         invoked (trace w)
           @ filter (\<lambda>t. t = X \<or> channelId env
                 (case options input of None \<Rightarrow> no_options | Some x \<Rightarrow> x) \<noteq> []) ?failed
     \<and> (\<forall>r\<in>set ?old. status r \<noteq> Failed \<longrightarrow> r \<in> set ?new)
     \<and> post_requests ?w' = post_requests w
     \<and> post_drafts ?w' = post_drafts w
     \<and> filter (\<lambda>row. fst row \<noteq> ?rid) (post_results ?w') =
         filter (\<lambda>row. fst row \<noteq> ?rid) (post_results w)
     \<and> (?failed = [] \<longrightarrow> ?w' = w \<and> per_target_results ?out = ?old)"
  proof (intro conjI)
    show "publishPost env input w = (Inr ?out, ?w')" by (rule run)
    show "per_target_results ?out = ?new" by simp
    show "map Some (per_target_results ?out) = map (retried (fst ?run)) ?old"
      using after(1) by simp
    show "overall_status ?out = computeOverallStatus ?new (targets input)" by simp
    show "overall_status ?out =
         (if \<not> (\<exists>r\<in>set (per_target_results ?out). status r = Success) then OverallFailed
          else if length (filter (\<lambda>r. status r = Success) (per_target_results ?out))
                    = length (targets input)
          then OverallSuccess else OverallPartial)"
      using st by simp
    show "list_all (\<lambda>r. status r = Success) (fst ?run)
         \<and> list_all (\<lambda>r. status r \<noteq> Skipped) ?old
         \<and> length ?old = length (targets input)
         \<longrightarrow> overall_status ?out = OverallSuccess"
      using all by simp
    show "invoked (trace ?w') =
         invoked (trace w)
           @ filter (\<lambda>t. t = X \<or> channelId env
                 (case options input of None \<Rightarrow> no_options | Some x \<Rightarrow> x) \<noteq> []) ?failed"
      by (rule inv)
    show "\<forall>r\<in>set ?old. status r \<noteq> Failed \<longrightarrow> r \<in> set ?new"
      using keep by blast
    show "post_requests ?w' = post_requests w" by (rule rq)
    show "post_drafts ?w' = post_drafts w" by (rule dr)
    show "filter (\<lambda>row. fst row \<noteq> ?rid) (post_results ?w') =
         filter (\<lambda>row. fst row \<noteq> ?rid) (post_results w)"
      by (rule after(2))
    show "?failed = [] \<longrightarrow> ?w' = w \<and> per_target_results ?out = ?old"
      using none by simp
  qed
  then show ?thesis by blast
qed

theorem publishPost_retry_failed_only_witness:
  "requested_retry retry_input
   \<and> findFailedTargets ''req-1'' recorded_world = [X]
   \<and> invoked (trace (snd (publishPost example_env retry_input recorded_world))) = [X]
   \<and> \<lparr>target = Discord, status = Success, platform_id = Some ''9001'',
        platform_url = Some ''https://discord.com/channels/1/42/9001'',
        error_message = None, posted_at = Some ''2024-01-15T10:30:00.000Z''\<rparr>
       \<in> set (findResultsByRequestId ''req-1''
                (snd (publishPost example_env retry_input recorded_world)))
   \<and> findResultsByRequestId ''req-1''
        (snd (publishPost example_env retry_input recorded_world)) =
       [\<lparr>target = X, status = Success, platform_id = Some ''1001'',
         platform_url = Some ''https://twitter.com/i/web/status/1001'',
         error_message = None, posted_at = Some ''2024-01-15T10:30:00.000Z''\<rparr>,
        \<lparr>target = Discord, status = Success, platform_id = Some ''9001'',
         platform_url = Some ''https://discord.com/channels/1/42/9001'',
         error_message = None, posted_at = Some ''2024-01-15T10:30:00.000Z''\<rparr>]
   \<and> map_sum id overall_status (fst (publishPost example_env retry_input recorded_world))
       = Inr OverallSuccess"
proof -
  let ?discord = "\<lparr>target = Discord, status = Success, platform_id = Some ''9001'',
        platform_url = Some ''https://discord.com/channels/1/42/9001'',
        error_message = None, posted_at = Some ''2024-01-15T10:30:00.000Z''\<rparr>"
  have rid: "request_id retry_input = ''req-1''"
    by (simp add: retry_input_def example_input_def)
  have h: "content_hash \<lparr>content_json = example_content,
           content_hash = generateContentHash (\<lambda>s. s) example_content,
           targets_json = [X, Discord],
           options_json = Some (PublishOptionsSchema_parse example_options)\<rparr>
        = generateContentHash (digest_sha256 example_env) (content retry_input)"
    by (simp add: example_env_def x_down_env_def retry_input_def example_input_def)
  have r: "requested_retry retry_input"
    by (simp add: requested_retry_def retry_input_def)
  have u: "distinct (map (\<lambda>row. (fst row, target (snd row))) (post_results recorded_world))"
    by (simp add: recorded_world_def failed_result_def)
  have ch: "channelId example_env (case options retry_input of None \<Rightarrow> no_options | Some x \<Rightarrow> x)
      = ''42''"
    by (simp add: channelId_def retry_input_def example_options_def)
  have old: "?discord \<in> set (findResultsByRequestId ''req-1'' recorded_world)"
    by (simp add: example_results)
  from publishPost_retry_failed_only [OF retry_parse retry_find h r u]
  obtain out w' where run: "publishPost example_env retry_input recorded_world = (Inr out, w')"
    and res: "per_target_results out = findResultsByRequestId (request_id retry_input) w'"
    and inv: "invoked (trace w') = invoked (trace recorded_world)
           @ filter (\<lambda>t. t = X \<or> channelId example_env
                 (case options retry_input of None \<Rightarrow> no_options | Some x \<Rightarrow> x) \<noteq> [])
               (findFailedTargets (request_id retry_input) recorded_world)"
    and keep: "\<forall>r\<in>set (findResultsByRequestId (request_id retry_input) recorded_world).
           status r \<noteq> Failed \<longrightarrow> r \<in> set (findResultsByRequestId (request_id retry_input) w')"
    by blast
  have w': "snd (publishPost example_env retry_input recorded_world) = w'"
    using run by simp
  have i: "invoked (trace w') = [X]"
    unfolding inv retry_failed ch by (simp add: recorded_world_def)
  have k: "?discord \<in> set (findResultsByRequestId ''req-1'' w')"
    using keep old unfolding rid by fastforce
  have n: "findResultsByRequestId ''req-1'' w' =
       [\<lparr>target = X, status = Success, platform_id = Some ''1001'',
         platform_url = Some ''https://twitter.com/i/web/status/1001'',
         error_message = None, posted_at = Some ''2024-01-15T10:30:00.000Z''\<rparr>, ?discord]"
    using retry_run res unfolding run rid by simp
  show ?thesis
    unfolding w' retry_run n using r i k retry_failed [unfolded rid] by simp
qed

subsection \<open>A replay with other targets\<close>

lemma publishPost_new:
  assumes p: "PublishInputSchema_parse (valid_url env) input = Some v"
    and n: "findRequestById (request_id input) w = None"
  shows "publishPost env input w =
    (case publishToTargets env (sortedInPlace (content v)) (targets input)
            (PublishOptionsSchema_parse (case options v of None \<Rightarrow> no_options | Some x \<Rightarrow> x))
            (Some (compose_drafts env (sortedInPlace (content v))
               (useUtm (PublishOptionsSchema_parse
                  (case options v of None \<Rightarrow> no_options | Some x \<Rightarrow> x)) = Some True)))
            (insertPostDrafts (request_id input)
               (compose_drafts env (sortedInPlace (content v))
                 (useUtm (PublishOptionsSchema_parse
                    (case options v of None \<Rightarrow> no_options | Some x \<Rightarrow> x)) = Some True))
               (insertPostRequest (request_id input) (sortedInPlace (content v))
                  (generateContentHash (digest_sha256 env) (content input)) (targets input)
                  (options v) w)) of
       (targetResults, w3) \<Rightarrow>
         (Inr \<lparr>out_request_id = request_id input,
               out_content_hash = generateContentHash (digest_sha256 env) (content input),
               overall_status = computeOverallStatus targetResults (targets input),
               per_target_results = targetResults\<rparr>,
          fold (insertPostResult (request_id input)) targetResults w3))"
  unfolding publishPost_def p option.case Let_def parse_fields(1,2) [OF p]
    parse_content_hash [OF p] n
  by simp

lemma upsert_row_keys:
  "set (map (\<lambda>row. (fst row, target (snd row))) (upsert_row rid r rows)) =
     insert (rid, target r) (set (map (\<lambda>row. (fst row, target (snd row))) rows))"
  unfolding upsert_row_map_key by auto

lemma fold_insertPostResult_keys:
  "set (map (\<lambda>row. (fst row, target (snd row)))
          (post_results (fold (insertPostResult rid) rs w))) =
     (\<lambda>r. (rid, target r)) ` set rs
       \<union> set (map (\<lambda>row. (fst row, target (snd row))) (post_results w))"
proof (induction rs arbitrary: w)
  case Nil
  then show ?case by simp
next
  case (Cons r rs)
  have "set (map (\<lambda>row. (fst row, target (snd row))) (post_results (insertPostResult rid r w)))
      = insert (rid, target r) (set (map (\<lambda>row. (fst row, target (snd row))) (post_results w)))"
    using upsert_row_keys [of rid "or_null_columns r" "post_results w"]
    by (simp add: insertPostResult_def or_null_columns_simps)
  then show ?case
    using Cons [of "insertPostResult rid r w"] by auto
qed

lemma findResults_targets:
  "set (map target (findResultsByRequestId rid w)) =
     {t. (rid, t) \<in> set (map (\<lambda>row. (fst row, target (snd row))) (post_results w))}"
  by (force simp: findResultsByRequestId_def or_null_columns_simps)

lemma findRequestById_insertPostRequest:
  "findRequestById rid w = None \<Longrightarrow>
   findRequestById rid (insertPostRequest rid c hash ts opts w) =
     Some \<lparr>content_json = c, content_hash = hash, targets_json = ts, options_json = opts\<rparr>"
  by (simp add: findRequestById_def insertPostRequest_def map_add_Some_iff)

lemma findRequestById_cong:
  "post_requests w' = post_requests w \<Longrightarrow> findRequestById rid w' = findRequestById rid w"
  by (simp add: findRequestById_def)


text \<open>
  C10. The fingerprint is computed from the content alone, so the targets of a call are
  no part of it. After a first call for a new request id (one with no row in
  \<open>post_requests\<close> and, by the foreign key, none in \<open>post_results\<close>), any valid call with the same
  request id and content and no retry flag, whatever its targets and options, raises no
  conflict, calls no publisher, writes nothing, and returns the results the ledger
  holds; these are results of the targets of the first call only, so a target that
  appears on the replay alone is never published under that request id.
\<close>

theorem publishPost_replay_ignores_targets:
  assumes p1: "PublishInputSchema_parse (valid_url env) input = Some v"
    and new: "findRequestById (request_id input) w0 = None"
    and fk: "findResultsByRequestId (request_id input) w0 = []"
    and first: "publishPost env input w0 = (res1, w1)"
    and p2: "PublishInputSchema_parse (valid_url env) input2 = Some v2"
    and same_id: "request_id input2 = request_id input"
    and same_content: "content input2 = content input"
    and nr: "\<not> requested_retry input2"
  shows "publishPost env input2 w1 =
           (Inr \<lparr>out_request_id = request_id input,
                 out_content_hash = generateContentHash (digest_sha256 env) (content input),
                 overall_status =
                   computeOverallStatus (findResultsByRequestId (request_id input) w1)
                     (targets input2),
                 per_target_results = findResultsByRequestId (request_id input) w1\<rparr>, w1)
       \<and> set (map target (findResultsByRequestId (request_id input) w1)) = set (targets input)"
proof -
  let ?rid = "request_id input"
  let ?hash = "generateContentHash (digest_sha256 env) (content input)"
  let ?c = "sortedInPlace (content v)"
  let ?opts = "PublishOptionsSchema_parse (case options v of None \<Rightarrow> no_options | Some x \<Rightarrow> x)"
  let ?drafts = "compose_drafts env ?c (useUtm ?opts = Some True)"
  let ?wa = "insertPostDrafts ?rid ?drafts
               (insertPostRequest ?rid ?c ?hash (targets input) (options v) w0)"
  let ?run = "publishToTargets env ?c (targets input) ?opts (Some ?drafts) ?wa"
  let ?row = "\<lparr>content_json = ?c, content_hash = ?hash, targets_json = targets input,
               options_json = options v\<rparr>"
  have "publishPost env input w0 =
      (Inr \<lparr>out_request_id = ?rid, out_content_hash = ?hash,
            overall_status = computeOverallStatus (fst ?run) (targets input),
            per_target_results = fst ?run\<rparr>,
       fold (insertPostResult ?rid) (fst ?run) (snd ?run))"
    unfolding publishPost_new [OF p1 new] by (simp add: case_prod_beta)
  with first have w1: "w1 = fold (insertPostResult ?rid) (fst ?run) (snd ?run)" by simp
  note iso = publishToTargets_run [of env ?c "targets input" ?opts "Some ?drafts" ?wa]
  from iso have led: "ledger (snd ?run) = ledger ?wa" by simp
  then have rq: "post_requests (snd ?run) = post_requests ?wa"
    and rs: "post_results (snd ?run) = post_results w0"
    by (simp_all add: ledger_def insertPostDrafts_def insertPostRequest_def)
  have "findRequestById ?rid ?wa = Some ?row"
    using findRequestById_insertPostRequest [OF new, of ?c ?hash "targets input" "options v"]
    by (simp add: findRequestById_def insertPostDrafts_def)
  then have f1: "findRequestById ?rid w1 = Some ?row"
    unfolding w1 by (simp add: findRequestById_def fold_insertPostResult_fields rq)
  have f2: "findRequestById (request_id input2) w1 = Some ?row"
    using f1 by (simp add: same_id)
  have replay: "publishPost env input2 w1 =
           (Inr \<lparr>out_request_id = ?rid, out_content_hash = ?hash,
                 overall_status =
                   computeOverallStatus (findResultsByRequestId ?rid w1) (targets input2),
                 per_target_results = findResultsByRequestId ?rid w1\<rparr>, w1)"
    unfolding publishPost_existing [OF p2 f2] using nr by (simp add: same_id same_content)
  have none: "{t. (?rid, t) \<in> set (map (\<lambda>row. (fst row, target (snd row))) (post_results w0))}
       = {}"
    using fk findResults_targets [of ?rid w0] by simp
  have tg: "map target (fst ?run) = targets input" using iso by simp
  have "set (map target (findResultsByRequestId ?rid w1)) =
      {t. (?rid, t) \<in> (\<lambda>r. (?rid, target r)) ` set (fst ?run)
           \<union> set (map (\<lambda>row. (fst row, target (snd row))) (post_results w0))}"
    unfolding findResults_targets w1 fold_insertPostResult_keys rs ..
  also have "\<dots> = set (map target (fst ?run))"
    using none by auto
  finally have "set (map target (findResultsByRequestId ?rid w1)) = set (targets input)"
    unfolding tg .
  with replay show ?thesis by simp
qed


theorem publishPost_replay_ignores_targets_witness:
  "set (map target (findResultsByRequestId ''req-1''
          (snd (publishPost example_env discord_only_input empty_world)))) = {Discord}
   \<and> snd (publishPost example_env example_input
          (snd (publishPost example_env discord_only_input empty_world)))
       = snd (publishPost example_env discord_only_input empty_world)
   \<and> map_sum id per_target_results
         (fst (publishPost example_env example_input
            (snd (publishPost example_env discord_only_input empty_world))))
       = Inr (findResultsByRequestId ''req-1''
            (snd (publishPost example_env discord_only_input empty_world)))"
proof -
  let ?w1 = "snd (publishPost example_env discord_only_input empty_world)"
  have p1: "PublishInputSchema_parse (valid_url example_env) discord_only_input =
     Some (discord_only_input\<lparr>content := example_content\<lparr>brandVoice := Some Professional\<rparr>,
             options := Some (PublishOptionsSchema_parse example_options)\<rparr>)"
    by (simp add: PublishInputSchema_parse_def NormalizedContentSchema_parse_def example_input_def
      example_content_def x_down_env_def example_env_def list_or_empty_def discord_only_input_def)
  have p2: "PublishInputSchema_parse (valid_url example_env) example_input =
     Some (example_input\<lparr>content := example_content\<lparr>brandVoice := Some Professional\<rparr>,
             options := Some (PublishOptionsSchema_parse example_options)\<rparr>)"
    using example_parse [of "[]"] by (simp add: example_env_def)
  have new: "findRequestById (request_id discord_only_input) empty_world = None"
    by (simp add: findRequestById_def empty_world_def)
  have fk: "findResultsByRequestId (request_id discord_only_input) empty_world = []"
    by (simp add: findResultsByRequestId_def empty_world_def)
  have first: "publishPost example_env discord_only_input empty_world =
      (fst (publishPost example_env discord_only_input empty_world), ?w1)"
    by simp
  have same_id: "request_id example_input = request_id discord_only_input"
    and same_content: "content example_input = content discord_only_input"
    by (simp_all add: discord_only_input_def)
  have nr: "\<not> requested_retry example_input"
    by (simp add: requested_retry_def example_input_def example_options_def)
  have rid: "request_id discord_only_input = ''req-1''"
    and ts: "targets discord_only_input = [Discord]"
    by (simp_all add: discord_only_input_def example_input_def)
  from publishPost_replay_ignores_targets [OF p1 new fk first p2 same_id same_content nr]
  show ?thesis
    unfolding rid ts by simp
qed

end
